theory Spec2Isabelle
  imports Complex_Main "HOL-Library.Char_ord" "HOL-Library.List_Lexorder" "HOL-Library.Multiset"
begin

section \<open>Python values and exceptions\<close>

text \<open>
  The exceptions the modelled code can raise.  A function that can raise returns
  \<open>error + 'a\<close>, with \<open>Inl\<close> for the raised exception.
\<close>

datatype error =
    IndexError | TypeError | ValueError | KeyError | ZeroDivisionError
  | AssertionError | ShapeMismatchError

text \<open>
  An entry of a \<open>float64\<close> numpy array: not-a-number or a number.  The code only
  stores, copies and compares these entries, so the numbers are taken as reals.
\<close>

datatype npfloat = NaN | Num real

subsection \<open>Decimal formatting and parsing\<close>

definition digit_char :: "nat \<Rightarrow> char" where
  "digit_char d = char_of (48 + d)"

text \<open>\<open>str(n)\<close>, \<open>'{}'.format(n)\<close> and \<open>'%d' % n\<close> for a non-negative integer.\<close>

fun str_of_nat :: "nat \<Rightarrow> string" where
  "str_of_nat n =
     (if n < 10 then [digit_char n] else str_of_nat (n div 10) @ [digit_char (n mod 10)])"

declare str_of_nat.simps [simp del]

text \<open>
  Zero padding to a minimum width \<open>w\<close>, as \<open>'%0wd'\<close> and the fixed-width fields of
  \<open>strftime\<close> do: a longer string is left as it is.
\<close>

definition zfill :: "nat \<Rightarrow> string \<Rightarrow> string" where
  "zfill w s = replicate (w - length s) (CHR ''0'') @ s"

definition is_digit :: "char \<Rightarrow> bool" where
  "is_digit c = (CHR ''0'' \<le> c \<and> c \<le> CHR ''9'')"

definition digit_val :: "char \<Rightarrow> nat" where
  "digit_val c = of_char c - 48"

text \<open>
  \<open>int(s)\<close> on a string of decimal digits.  Every other string is taken to raise
  \<open>ValueError\<close>; the strings that reach \<open>int\<close> in the modelled code are the six digits
  that \<open>%f\<close> prints.
\<close>

definition int_of_str :: "string \<Rightarrow> error + nat" where
  "int_of_str s =
     (if s \<noteq> [] \<and> list_all is_digit s
      then Inr (foldl (\<lambda>acc c. 10 * acc + digit_val c) 0 s)
      else Inl ValueError)"

text \<open>\<open>s.split(c)\<close> for a one-character separator.\<close>

fun split_on :: "char \<Rightarrow> string \<Rightarrow> string list" where
  "split_on c [] = [[]]"
| "split_on c (x # xs) =
     (if x = c then [] # split_on c xs
      else (case split_on c xs of p # ps \<Rightarrow> (x # p) # ps | [] \<Rightarrow> [[x]]))"

text \<open>A Python \<open>dict\<close> as an association list in insertion order.\<close>

fun dict_set :: "'k \<Rightarrow> 'v \<Rightarrow> ('k \<times> 'v) list \<Rightarrow> ('k \<times> 'v) list" where
  "dict_set k v [] = [(k, v)]"
| "dict_set k v ((k', v') # kvs) =
     (if k = k' then (k, v) # kvs else (k', v') # dict_set k v kvs)"

definition dict_update :: "('k \<times> 'v) list \<Rightarrow> ('k \<times> 'v) list \<Rightarrow> ('k \<times> 'v) list" where
  "dict_update d other = foldl (\<lambda>acc kv. dict_set (fst kv) (snd kv) acc) d other"


section \<open>Identifiers: \<open>gen_tuid\<close> (\<open>quantify/data/data_handling.py\<close>)\<close>

text \<open>A naive \<open>datetime.datetime\<close>, with the field ranges its constructor enforces.\<close>

record datetime =
  year :: nat
  month :: nat
  day :: nat
  hour :: nat
  minute :: nat
  second :: nat
  microsecond :: nat

text \<open>
  The valid timestamps.  The day is only bounded by 31 here (the constructor also
  checks it against the month), so every real \<open>datetime\<close> satisfies the predicate.
\<close>

definition datetime_ok :: "datetime \<Rightarrow> bool" where
  "datetime_ok ts =
     (1 \<le> year ts \<and> year ts \<le> 9999 \<and> 1 \<le> month ts \<and> month ts \<le> 12 \<and>
      1 \<le> day ts \<and> day ts \<le> 31 \<and> hour ts < 24 \<and> minute ts < 60 \<and> second ts < 60 \<and>
      microsecond ts < 1000000)"

text \<open>
  \<open>ts.strftime('%Y%m%d-%H%M%S-.%f')\<close> as CPython gives it on glibc: \<open>%Y\<close> is the
  year as a decimal number without padding (a year below 1000 has fewer than four
  digits), \<open>%m %d %H %M %S\<close> are two digits each, \<open>%f\<close> is the microsecond in six
  digits.
\<close>

definition strftime_tuid :: "datetime \<Rightarrow> string" where
  "strftime_tuid ts =
     str_of_nat (year ts) @ zfill 2 (str_of_nat (month ts)) @
     zfill 2 (str_of_nat (day ts)) @ ''-'' @
     zfill 2 (str_of_nat (hour ts)) @ zfill 2 (str_of_nat (minute ts)) @
     zfill 2 (str_of_nat (second ts)) @ ''-.'' @
     zfill 6 (str_of_nat (microsecond ts))"

text \<open>
  \<open>gen_tuid(ts=None)\<close>.  The wall clock \<open>datetime.now()\<close> and the fresh \<open>str(uuid4())\<close>
  are inputs \<open>now\<close> and \<open>uuid4\<close>.  The unpacking \<open>(dt, micro) = ....split('.')\<close> raises
  \<open>ValueError\<close> unless the split has exactly two parts.  \<open>int(micro) / 1000\<close> is a float
  that \<open>%03d\<close> truncates; for a microsecond count below one million that is the integer
  quotient.
\<close>

definition gen_tuid :: "datetime \<Rightarrow> string \<Rightarrow> datetime option \<Rightarrow> error + string" where
  "gen_tuid now uuid4 ts =
     (let ts' = (case ts of None \<Rightarrow> now | Some t \<Rightarrow> t) in
      case split_on (CHR ''.'') (strftime_tuid ts') of
        [dt, micro] \<Rightarrow>
          (case int_of_str micro of
             Inl e \<Rightarrow> Inl e
           | Inr us \<Rightarrow> Inr (dt @ zfill 3 (str_of_nat (us div 1000)) @ ''-'' @ take 6 uuid4))
      | _ \<Rightarrow> Inl ValueError)"


text \<open>
  The shape \<open>YYYYMMDD-HHMMSS-mmm-xxxxxx\<close>: 26 characters, digits in the date, time and
  millisecond fields, a dash after each of them.
\<close>

definition tuid_form :: "string \<Rightarrow> bool" where
  "tuid_form t =
     (length t = 26 \<and>
      list_all is_digit (take 8 t) \<and> t ! 8 = CHR ''-'' \<and>
      list_all is_digit (take 6 (drop 9 t)) \<and> t ! 15 = CHR ''-'' \<and>
      list_all is_digit (take 3 (drop 16 t)) \<and> t ! 19 = CHR ''-'')"

text \<open>
  Modelled from the spec: \<open>TUID.is_valid\<close> of \<open>quantify.data.core_data\<close>, which is not
  among the source files.  The spec makes validity a pure structural predicate (length,
  digit placement, separator positions).
\<close>

definition TUID_is_valid :: "string \<Rightarrow> bool" where
  "TUID_is_valid t = tuid_form t"

text \<open>
  Fixed-width decimal numerals, and the identifier \<open>gen_tuid\<close> returns written with
  them (the year as \<open>%Y\<close> prints it).
\<close>

fun fixed :: "nat \<Rightarrow> nat \<Rightarrow> string" where
  "fixed 0 n = []"
| "fixed (Suc w) n = fixed w (n div 10) @ [digit_char (n mod 10)]"

definition tuid_of :: "datetime \<Rightarrow> string \<Rightarrow> string" where
  "tuid_of ts u =
     (str_of_nat (year ts) @ fixed 2 (month ts) @ fixed 2 (day ts)) @ CHR ''-'' #
     (fixed 2 (hour ts) @ fixed 2 (minute ts) @ fixed 2 (second ts)) @ CHR ''-'' #
     fixed 3 (microsecond ts div 1000) @ CHR ''-'' # take 6 u"


section \<open>The process-wide data directory (\<open>quantify/data/data_handling.py\<close>)\<close>

text \<open>
  The module globals \<open>this._datadir\<close> (initially \<open>None\<close>) and
  \<open>_default_datadir\<close> (computed from the module's file name at import).
\<close>

record module_state =
  datadir :: "string option"
  default_datadir :: string

text \<open>
  \<open>get_datadir\<close>: when \<open>_datadir\<close> is \<open>None\<close> it is first set to the default
  directory; the (possibly just assigned) directory is returned.  No branch raises.
\<close>

definition get_datadir :: "module_state \<Rightarrow> string \<times> module_state" where
  "get_datadir m =
     (case datadir m of
        None \<Rightarrow> (default_datadir m, m\<lparr>datadir := Some (default_datadir m)\<rparr>)
      | Some d \<Rightarrow> (d, m))"

definition set_datadir :: "string option \<Rightarrow> module_state \<Rightarrow> module_state" where
  "set_datadir d m = m\<lparr>datadir := d\<rparr>"


section \<open>Datasets: \<open>initialize_dataset\<close> (\<open>quantify/data/data_handling.py\<close>)\<close>

text \<open>
  What the code reads of a settable or gettable object: its \<open>name\<close>, \<open>label\<close> and
  \<open>unit\<close> attributes, and whether it has the optional \<open>prepare\<close> and \<open>finish\<close>
  methods (calling a missing one raises \<open>AttributeError\<close>).
\<close>

record par =
  name :: string
  label :: string
  unit :: string
  has_prepare :: bool
  has_finish :: bool

text \<open>
  A two-dimensional numpy array of shape \<open>(nrows, ncols)\<close>, held row by row.  The shape
  is kept beside the rows because an array with no rows still has a column count.
\<close>

record ndarray2 =
  nrows :: nat
  ncols :: nat
  rows :: "npfloat list list"

definition ndarray2_ok :: "ndarray2 \<Rightarrow> bool" where
  "ndarray2_ok a = (length (rows a) = nrows a \<and> list_all (\<lambda>r. length r = ncols a) (rows a))"

text \<open>\<open>a[:, i]\<close> for \<open>i \<ge> 0\<close>: \<open>IndexError\<close> when the array has no column \<open>i\<close>.\<close>

definition column :: "ndarray2 \<Rightarrow> nat \<Rightarrow> error + npfloat list" where
  "column a i = (if i < ncols a then Inr (map (\<lambda>r. r ! i) (rows a)) else Inl IndexError)"

text \<open>
  An \<open>xarray.DataArray\<close> (its one-dimensional data and its attribute dictionary), and an
  \<open>xarray.Dataset\<close>: the variables by name, in the order they were merged, and the
  dataset's own attribute dictionary.
\<close>

record data_array =
  da_data :: "npfloat list"
  da_attrs :: "(string \<times> string) list"

datatype attr = AStr string | ABool bool | AInt nat

record dataset =
  data_vars :: "(string \<times> data_array) list"
  attrs :: "(string \<times> attr) list"

definition par_attrs :: "'a par_scheme \<Rightarrow> (string \<times> string) list" where
  "par_attrs p = [(''name'', name p), (''long_name'', label p), (''unit'', unit p)]"

text \<open>
  The first loop of \<open>initialize_dataset\<close>, from index \<open>i\<close> on: one array \<open>x{i}\<close> per
  settable, holding column \<open>i\<close> of the set-points.
\<close>

fun x_arrays :: "nat \<Rightarrow> 'a par_scheme list \<Rightarrow> ndarray2 \<Rightarrow> error + (string \<times> data_array) list" where
  "x_arrays i [] setpoints = Inr []"
| "x_arrays i (setpar # ps) setpoints =
     (case column setpoints i of
        Inl e \<Rightarrow> Inl e
      | Inr col \<Rightarrow>
          (case x_arrays (Suc i) ps setpoints of
             Inl e \<Rightarrow> Inl e
           | Inr ds \<Rightarrow>
               Inr ((''x'' @ str_of_nat i, \<lparr>da_data = col, da_attrs = par_attrs setpar\<rparr>) # ds)))"

text \<open>The second loop, from index \<open>j\<close> on: one array \<open>y{j}\<close> of not-a-number per gettable.\<close>

fun y_arrays :: "nat \<Rightarrow> 'a par_scheme list \<Rightarrow> nat \<Rightarrow> (string \<times> data_array) list" where
  "y_arrays j [] numpoints = []"
| "y_arrays j (getpar # ps) numpoints =
     (''y'' @ str_of_nat j, \<lparr>da_data = replicate numpoints NaN, da_attrs = par_attrs getpar\<rparr>)
       # y_arrays (Suc j) ps numpoints"

text \<open>
  \<open>initialize_dataset(setable_pars, setpoints, getable_pars)\<close>.  \<open>xr.merge\<close> makes one
  variable per array name; the names \<open>x0, x1, ..., y0, y1, ...\<close> are pairwise distinct
  (\<open>initialize_dataset_names_distinct\<close> below), so the merged dataset holds the arrays
  in the order built.  \<open>gen_tuid()\<close> reads the clock and draws the random token.
\<close>

definition initialize_dataset ::
  "datetime \<Rightarrow> string \<Rightarrow> 'a par_scheme list \<Rightarrow> ndarray2 \<Rightarrow> 'b par_scheme list \<Rightarrow> error + dataset" where
  "initialize_dataset now uuid4 setable_pars setpoints getable_pars =
     (case x_arrays 0 setable_pars setpoints of
        Inl e \<Rightarrow> Inl e
      | Inr xs \<Rightarrow>
          (case column setpoints 0 of
             Inl e \<Rightarrow> Inl e
           | Inr col0 \<Rightarrow>
               (let numpoints = length col0;
                    darrs = xs @ y_arrays 0 getable_pars numpoints
                in case gen_tuid now uuid4 None of
                     Inl e \<Rightarrow> Inl e
                   | Inr tuid \<Rightarrow> Inr \<lparr>data_vars = darrs, attrs = [(''tuid'', AStr tuid)]\<rparr>)))"

subsection \<open>Growing and trimming a dataset\<close>

text \<open>
  Modelled from the spec: \<open>grow\<close> and \<open>trim\<close> of the Dataset Resizer (section 4.3).  The
  repository's \<open>grow_dataset\<close> and \<open>trim_dataset\<close> are not among the source files; only
  their test \<open>test_dynamic_dataset\<close> is.  Following the spec, \<open>grow\<close> extends every array
  to the target length with not-a-number, \<open>trim\<close> keeps the first entries of every
  array, and both fail with \<open>ShapeMismatchError\<close> on a dataset whose arrays differ in
  length.
\<close>

definition equal_lengths :: "dataset \<Rightarrow> bool" where
  "equal_lengths ds =
     (case data_vars ds of
        [] \<Rightarrow> True
      | v # vs \<Rightarrow> list_all (\<lambda>w. length (da_data (snd w)) = length (da_data (snd v))) vs)"

definition map_arrays :: "(npfloat list \<Rightarrow> npfloat list) \<Rightarrow> dataset \<Rightarrow> dataset" where
  "map_arrays f ds =
     ds\<lparr>data_vars := map (\<lambda>v. (fst v, (snd v)\<lparr>da_data := f (da_data (snd v))\<rparr>)) (data_vars ds)\<rparr>"

definition grow :: "dataset \<Rightarrow> nat \<Rightarrow> error + dataset" where
  "grow ds target_length =
     (if equal_lengths ds
      then Inr (map_arrays (\<lambda>d. d @ replicate (target_length - length d) NaN) ds)
      else Inl ShapeMismatchError)"

definition trim :: "dataset \<Rightarrow> nat \<Rightarrow> error + dataset" where
  "trim ds actual_length =
     (if equal_lengths ds then Inr (map_arrays (take actual_length) ds)
      else Inl ShapeMismatchError)"


section \<open>Set-point grids: \<open>tile_setpoints_grid\<close> (\<open>quantify/measurement/control.py\<close>)\<close>

text \<open>\<open>np.tile(a, reps)\<close> and \<open>np.repeat(a, repeats)\<close> on one-dimensional arrays.\<close>

definition np_tile :: "'a list \<Rightarrow> nat \<Rightarrow> 'a list" where
  "np_tile a reps = concat (replicate reps a)"

definition np_repeat :: "'a list \<Rightarrow> nat \<Rightarrow> 'a list" where
  "np_repeat a repeats = concat (map (replicate repeats) a)"

text \<open>\<open>a.reshape((len(a), 1))\<close> of a one-dimensional array.\<close>

definition reshape_column :: "npfloat list \<Rightarrow> ndarray2" where
  "reshape_column a = \<lparr>nrows = length a, ncols = 1, rows = map (\<lambda>x. [x]) a\<rparr>"

text \<open>\<open>xn[:, i]\<close> for a column the array has.\<close>

definition col_of :: "ndarray2 \<Rightarrow> nat \<Rightarrow> npfloat list" where
  "col_of a i = map (\<lambda>r. r ! i) (rows a)"

text \<open>
  \<open>np.column_stack\<close> of one-dimensional arrays: \<open>ValueError\<close> when there is none or when
  their lengths differ.
\<close>

definition column_stack :: "npfloat list list \<Rightarrow> error + ndarray2" where
  "column_stack cols =
     (case cols of
        [] \<Rightarrow> Inl ValueError
      | c # cs \<Rightarrow>
          if list_all (\<lambda>d. length d = length c) cs
          then Inr \<lparr>nrows = length c, ncols = length cols,
                    rows = map (\<lambda>r. map (\<lambda>d. d ! r) cols) [0..<length c]\<rparr>
          else Inl ValueError)"

text \<open>One pass of the loop body, for the next input array \<open>setpoints_n\<close>.\<close>

definition tile_step :: "ndarray2 \<Rightarrow> npfloat list \<Rightarrow> error + ndarray2" where
  "tile_step xn setpoints_n =
     (let curr_l = nrows xn;
          new_l = length setpoints_n;
          col_stack = map (\<lambda>i. np_tile (col_of xn i) new_l) [0..<ncols xn]
                      @ [np_repeat setpoints_n curr_l]
      in column_stack col_stack)"

fun tile_loop :: "ndarray2 \<Rightarrow> npfloat list list \<Rightarrow> error + ndarray2" where
  "tile_loop xn [] = Inr xn"
| "tile_loop xn (setpoints_n # rest) =
     (case tile_step xn setpoints_n of Inl e \<Rightarrow> Inl e | Inr xn' \<Rightarrow> tile_loop xn' rest)"

text \<open>
  \<open>tile_setpoints_grid(setpoints)\<close> for a list of one-dimensional arrays;
  \<open>setpoints[0]\<close> raises \<open>IndexError\<close> on the empty list.
\<close>

definition tile_setpoints_grid :: "npfloat list list \<Rightarrow> error + ndarray2" where
  "tile_setpoints_grid setpoints =
     (case setpoints of
        [] \<Rightarrow> Inl IndexError
      | s0 # rest \<Rightarrow> tile_loop (reshape_column s0) rest)"

text \<open>
  The position in input array \<open>j\<close> that row \<open>r\<close> of the grid takes its entry from, when
  the first array varies fastest: \<open>r\<close> divided by the product of the earlier lengths,
  modulo the length of array \<open>j\<close>.
\<close>

definition grid_index :: "nat list \<Rightarrow> nat \<Rightarrow> nat \<Rightarrow> nat" where
  "grid_index lens j r = (r div prod_list (take j lens)) mod (lens ! j)"

text \<open>
  Every row of \<open>R\<close> extended by every entry of \<open>b\<close>, the rows of \<open>R\<close> running fastest:
  what one pass of the loop makes of the rows built so far.
\<close>

definition snoc_rows :: "'a list list \<Rightarrow> 'a list \<Rightarrow> 'a list list" where
  "snoc_rows R b = concat (map (\<lambda>y. map (\<lambda>row. row @ [y]) R) b)"


section \<open>The acquisition loop: \<open>MeasurementControl\<close> (\<open>quantify/measurement/control.py\<close>)\<close>

subsection \<open>Collaborators and the world outside\<close>

text \<open>
  What a gettable's \<open>get()\<close> returns: a scalar, or a two-dimensional block (a sequence
  of rows of numbers).
\<close>

datatype getval = Scalar npfloat | Block "npfloat list list"

datatype target = Settable nat | Gettable nat

text \<open>
  Everything the loop does to the world outside, in the order it happens: calls of the
  settables and gettables (by their position in the configured lists; a \<open>get\<close> with the
  result it gave), and the file system, plot monitor and progress output.
\<close>

datatype event =
    SetCall nat npfloat
  | GetCall nat getval
  | PrepareCall target
  | FinishCall target
  | MakeDirs string
  | ToNetcdf string dataset
  | JsonDump string
  | PlotmonTuid string
  | PlotmonUpdate
  | ProgressCallback real
  | PrintProgress real

text \<open>
  A gettable: the attributes of \<open>par\<close>, the answer \<open>internal\<close> that
  \<open>is_internally_controlled\<close> gives for it (that function, of
  \<open>quantify.measurement.types\<close>, is not among the source files, so its result is a field
  of the object), and \<open>get\<close>: the result of the next \<open>get()\<close> call as a function of
  everything that happened before it.
\<close>

record gettable = par +
  internal :: bool
  get :: "event list \<Rightarrow> getval"

text \<open>
  The instance attributes and parameters of \<open>MeasurementControl\<close> that \<open>run\<close> uses,
  the module globals of \<open>data_handling\<close>, the trace of events so far and the number of
  \<open>time.time()\<close> readings taken.  \<open>setpoints\<close> is \<open>None\<close> while \<open>_setpoints\<close> is
  still the empty Python list of \<open>__init__\<close>; \<open>set_setpoints\<close> stores a
  two-dimensional array.
\<close>

record state =
  settable_pars :: "par list"
  setpoints :: "ndarray2 option"
  gettable_pars :: "gettable list"
  nr_acquired_values :: nat
  begintime :: real
  last_upd :: real
  plot_info :: "(string \<times> attr) list"
  soft_avg :: nat
  update_interval :: real
  instr_plotmon :: "string option"
  verbose :: bool
  on_progress_callback :: bool
  dh :: module_state
  trace :: "event list"
  ticks :: nat

text \<open>
  What the run reads from outside and does not control: the successive readings of
  \<open>time.time()\<close>, and the \<open>datetime.now()\<close> and \<open>str(uuid4())\<close> that \<open>gen_tuid\<close>
  receives.
\<close>

record env =
  clock :: "nat \<Rightarrow> real"
  env_now :: datetime
  env_uuid4 :: string

definition time_time :: "env \<Rightarrow> state \<Rightarrow> real \<times> state" where
  "time_time e s = (clock e (ticks s), s\<lparr>ticks := Suc (ticks s)\<rparr>)"

definition emit :: "event \<Rightarrow> state \<Rightarrow> state" where
  "emit ev s = s\<lparr>trace := trace s @ [ev]\<rparr>"

text \<open>\<open>len(self._setpoints)\<close>.\<close>

definition len_setpoints :: "state \<Rightarrow> nat" where
  "len_setpoints s = (case setpoints s of None \<Rightarrow> 0 | Some g \<Rightarrow> nrows g)"

text \<open>\<open>os.path.join\<close> of two components (POSIX).\<close>

definition path_join :: "string \<Rightarrow> string \<Rightarrow> string" where
  "path_join a b =
     (if b \<noteq> [] \<and> hd b = CHR ''/'' then b
      else if a = [] \<or> last a = CHR ''/'' then a @ b
      else a @ ''/'' @ b)"

text \<open>
  \<open>create_exp_folder(tuid, name)\<close> with \<open>datadir=None\<close>: the assertion, the data
  directory query, the path, \<open>os.makedirs\<close>.
\<close>

definition create_exp_folder :: "string \<Rightarrow> string \<Rightarrow> state \<Rightarrow> (error + string) \<times> state" where
  "create_exp_folder tuid nm s =
     (if TUID_is_valid tuid then
        (case get_datadir (dh s) of
           (d, m') \<Rightarrow>
             (let exp_folder = path_join (path_join d (take 8 tuid)) (drop 9 tuid);
                  exp_folder' = (if nm = [] then exp_folder else exp_folder @ ''-'' @ nm)
              in (Inr exp_folder', emit (MakeDirs exp_folder') (s\<lparr>dh := m'\<rparr>))))
      else (Inl AssertionError, s))"

subsection \<open>Progress and the throttled flush\<close>

text \<open>\<open>_get_fracdone\<close>: a true division, which raises on a zero divisor.\<close>

definition get_fracdone :: "state \<Rightarrow> error + real" where
  "get_fracdone s =
     (if len_setpoints s * soft_avg s = 0 then Inl ZeroDivisionError
      else Inr (real (nr_acquired_values s) / real (len_setpoints s * soft_avg s)))"

text \<open>
  \<open>print_progress\<close>: the percentage, the elapsed time (one clock reading), the callback
  and the printed line.  The text of the line is not modelled, only that it is printed.
\<close>

definition print_progress :: "env \<Rightarrow> state \<Rightarrow> (error + unit) \<times> state" where
  "print_progress e s =
     (case get_fracdone s of
        Inl err \<Rightarrow> (Inl err, s)
      | Inr f \<Rightarrow>
          (let percdone = f * 100 in
           case time_time e s of
             (t, s1) \<Rightarrow>
               (let s2 = (if on_progress_callback s1 then emit (ProgressCallback percdone) s1 else s1);
                    s3 = (if verbose s2 then emit (PrintProgress percdone) s2 else s2)
                in (Inr (), s3))))"

definition plotmon_active :: "string option \<Rightarrow> bool" where
  "plotmon_active plotmon_name = (case plotmon_name of None \<Rightarrow> False | Some n \<Rightarrow> n \<noteq> [])"

text \<open>\<open>_update(dataset, plotmon_name, exp_folder)\<close>.\<close>

definition update :: "env \<Rightarrow> dataset \<Rightarrow> string option \<Rightarrow> string \<Rightarrow> state \<Rightarrow> (error + unit) \<times> state" where
  "update e ds plotmon_name exp_folder s =
     (case time_time e s of
        (t, s1) \<Rightarrow>
          if t - last_upd s1 > update_interval s1 \<or> nr_acquired_values s1 = len_setpoints s1
          then
            (case print_progress e s1 of
               (Inl err, s2) \<Rightarrow> (Inl err, s2)
             | (Inr _, s2) \<Rightarrow>
                 (let s3 = emit (ToNetcdf (path_join exp_folder ''dataset.hdf5'') ds) s2;
                      s4 = (if plotmon_active plotmon_name then emit PlotmonUpdate s3 else s3)
                  in case time_time e s4 of
                       (t', s5) \<Rightarrow> (Inr (), s5\<lparr>last_upd := t'\<rparr>)))
          else (Inr (), s1))"

subsection \<open>The prepare and finish hooks\<close>

text \<open>
  A \<open>for\<close> loop inside one \<open>try ... except AttributeError: pass\<close>: the hook of each
  object is called in turn; the first object without the hook raises
  \<open>AttributeError\<close>, which leaves the loop.
\<close>

fun call_hooks ::
  "('a par_scheme \<Rightarrow> bool) \<Rightarrow> (nat \<Rightarrow> event) \<Rightarrow> nat \<Rightarrow> 'a par_scheme list \<Rightarrow> state \<Rightarrow> state" where
  "call_hooks has ev i [] s = s"
| "call_hooks has ev i (p # ps) s =
     (if has p then call_hooks has ev (Suc i) ps (emit (ev i) s) else s)"

text \<open>\<open>_prepare\<close>: the loop over the settables, then the loop over the gettables.\<close>

definition prepare :: "state \<Rightarrow> state" where
  "prepare s =
     (let s1 = call_hooks has_prepare (\<lambda>i. PrepareCall (Settable i)) 0 (settable_pars s) s
      in call_hooks has_prepare (\<lambda>j. PrepareCall (Gettable j)) 0 (gettable_pars s1) s1)"

text \<open>
  \<open>_finish\<close>: one loop, over \<open>self._gettable_pars and self._settable_pars\<close>.  Python's
  \<open>and\<close> gives its first operand when that is empty and its second otherwise: the
  loop runs over the settables when there is a gettable, and over nothing when there is
  none.
\<close>

definition finish_targets :: "state \<Rightarrow> par list" where
  "finish_targets s = (if gettable_pars s = [] then [] else settable_pars s)"

definition finish :: "state \<Rightarrow> state" where
  "finish s = call_hooks has_finish (\<lambda>i. FinishCall (Settable i)) 0 (finish_targets s) s"

subsection \<open>Writing into the dataset\<close>

text \<open>
  \<open>dataset[key].values[idx] = v\<close> for a number \<open>v\<close>: \<open>KeyError\<close> for a missing variable,
  \<open>IndexError\<close> beyond the end of the array.
\<close>

definition set_entry :: "string \<Rightarrow> nat \<Rightarrow> npfloat \<Rightarrow> dataset \<Rightarrow> error + dataset" where
  "set_entry key idx v ds =
     (case map_of (data_vars ds) key of
        None \<Rightarrow> Inl KeyError
      | Some da \<Rightarrow>
          if idx < length (da_data da)
          then Inr (ds\<lparr>data_vars :=
                  dict_set key (da\<lparr>da_data := (da_data da)[idx := v]\<rparr>) (data_vars ds)\<rparr>)
          else Inl IndexError)"

text \<open>
  The same assignment with what \<open>get()\<close> returned: a block cannot be stored in one
  array element (\<open>ValueError\<close>).
\<close>

definition set_getval :: "string \<Rightarrow> nat \<Rightarrow> getval \<Rightarrow> dataset \<Rightarrow> error + dataset" where
  "set_getval key idx v ds =
     (case map_of (data_vars ds) key of
        None \<Rightarrow> Inl KeyError
      | Some da \<Rightarrow>
          if idx < length (da_data da)
          then (case v of Scalar x \<Rightarrow> set_entry key idx x ds | Block b \<Rightarrow> Inl ValueError)
          else Inl IndexError)"

subsection \<open>The loop entered when the gettable is internally controlled\<close>

text \<open>\<open>for spar, spt in zip(self._settable_pars, spts): spar.set(spt)\<close>, from position \<open>i\<close>.\<close>

fun set_all :: "nat \<Rightarrow> par list \<Rightarrow> npfloat list \<Rightarrow> state \<Rightarrow> state" where
  "set_all i (spar # spars) (spt # spts) s = set_all (Suc i) spars spts (emit (SetCall i spt) s)"
| "set_all i spars spts s = s"

text \<open>
  \<open>for j, gpar in enumerate(self._gettable_pars)\<close>: one \<open>get()\<close> each, stored in
  \<open>y{j}\<close> at index \<open>idx\<close>.
\<close>

fun get_all :: "nat \<Rightarrow> gettable list \<Rightarrow> nat \<Rightarrow> dataset \<Rightarrow> state \<Rightarrow> (error + dataset) \<times> state" where
  "get_all j [] idx ds s = (Inr ds, s)"
| "get_all j (gpar # gpars) idx ds s =
     (let v = get gpar (trace s);
          s1 = emit (GetCall j v) s
      in case set_getval (''y'' @ str_of_nat j) idx v ds of
           Inl err \<Rightarrow> (Inl err, s1)
         | Inr ds' \<Rightarrow> get_all (Suc j) gpars idx ds' s1)"

text \<open>\<open>for idx, spts in enumerate(self._setpoints)\<close>, from row \<open>idx\<close> on.\<close>

fun row_loop ::
  "env \<Rightarrow> string option \<Rightarrow> string \<Rightarrow> nat \<Rightarrow> npfloat list list \<Rightarrow> dataset \<Rightarrow> state
     \<Rightarrow> (error + dataset) \<times> state" where
  "row_loop e pm folder idx [] ds s = (Inr ds, s)"
| "row_loop e pm folder idx (spts # rest) ds s =
     (let s1 = set_all 0 (settable_pars s) spts s in
      case get_all 0 (gettable_pars s1) idx ds s1 of
        (Inl err, s2) \<Rightarrow> (Inl err, s2)
      | (Inr ds', s2) \<Rightarrow>
          (let s3 = s2\<lparr>nr_acquired_values := nr_acquired_values s2 + 1\<rparr> in
           case update e ds' pm folder s3 of
             (Inl err, s4) \<Rightarrow> (Inl err, s4)
           | (Inr _, s4) \<Rightarrow> row_loop e pm folder (Suc idx) rest ds' s4))"

subsection \<open>The loop entered otherwise\<close>

text \<open>\<open>for j, dp in enumerate(row): dataset['y{i}'].values[j] = dp\<close>, from position \<open>j\<close>.\<close>

fun write_row :: "string \<Rightarrow> nat \<Rightarrow> npfloat list \<Rightarrow> dataset \<Rightarrow> error + dataset" where
  "write_row key j [] ds = Inr ds"
| "write_row key j (dp # dps) ds =
     (case set_entry key j dp ds of
        Inl err \<Rightarrow> Inl err
      | Inr ds' \<Rightarrow> write_row key (Suc j) dps ds')"

text \<open>
  \<open>for i, row in enumerate(new_data)\<close>, from row \<open>i\<close>, with \<open>points_gathered\<close> so far:
  the row is written from index 0 and \<open>points_gathered\<close> becomes its length.
\<close>

fun write_block :: "nat \<Rightarrow> npfloat list list \<Rightarrow> nat \<Rightarrow> dataset \<Rightarrow> error + (dataset \<times> nat)" where
  "write_block i [] points_gathered ds = Inr (ds, points_gathered)"
| "write_block i (row # others) points_gathered ds =
     (case write_row (''y'' @ str_of_nat i) 0 row ds of
        Inl err \<Rightarrow> Inl err
      | Inr ds' \<Rightarrow> write_block (Suc i) others (length row) ds')"

text \<open>
  The body of the \<open>while\<close> loop: one bulk read of the first gettable, the block written
  into the dataset, the count advanced, the throttled flush.  Iterating over a scalar
  raises \<open>TypeError\<close>.
\<close>

definition block_step ::
  "env \<Rightarrow> string option \<Rightarrow> string \<Rightarrow> dataset \<Rightarrow> state \<Rightarrow> (error + dataset) \<times> state" where
  "block_step e pm folder ds s =
     (case gettable_pars s of
        [] \<Rightarrow> (Inl IndexError, s)
      | g # gs \<Rightarrow>
          (let new_data = get g (trace s);
               s1 = emit (GetCall 0 new_data) s
           in case new_data of
                Scalar x \<Rightarrow> (Inl TypeError, s1)
              | Block b \<Rightarrow>
                  (case write_block 0 b 0 ds of
                     Inl err \<Rightarrow> (Inl err, s1)
                   | Inr (ds', points_gathered) \<Rightarrow>
                       (let s2 = s1\<lparr>nr_acquired_values := nr_acquired_values s1 + points_gathered\<rparr>
                        in case update e ds' pm folder s2 of
                             (Inl err, s3) \<Rightarrow> (Inl err, s3)
                           | (Inr _, s3) \<Rightarrow> (Inr ds', s3)))))"

text \<open>
  \<open>while self._get_fracdone() < 100: ...\<close>.  The loop need not end, so the function is
  partial: \<open>None\<close> stands for a loop that runs forever.
\<close>

partial_function (option) block_loop ::
  "env \<Rightarrow> string option \<Rightarrow> string \<Rightarrow> dataset \<Rightarrow> state \<Rightarrow> ((error + dataset) \<times> state) option" where
  "block_loop e pm folder ds s =
     (case get_fracdone s of
        Inl err \<Rightarrow> Some (Inl err, s)
      | Inr f \<Rightarrow>
          if f < 100 then
            (case block_step e pm folder ds s of
               (Inl err, s') \<Rightarrow> Some (Inl err, s')
             | (Inr ds', s') \<Rightarrow> block_loop e pm folder ds' s')
          else Some (Inr ds, s))"

subsection \<open>\<open>run\<close>\<close>

text \<open>
  The part of \<open>run\<close> from the written baseline files on: the hooks, the plot monitor,
  one of the two loops, the finish hooks, the final write and the reset of the plot
  hints.
\<close>

definition acquire ::
  "env \<Rightarrow> bool \<Rightarrow> string \<Rightarrow> string \<Rightarrow> dataset \<Rightarrow> state \<Rightarrow> ((error + dataset) \<times> state) option" where
  "acquire e is_internal tuid exp_folder ds s =
     (let s1 = prepare s;
          plotmon_name = instr_plotmon s1;
          s2 = (if plotmon_active plotmon_name
                then emit PlotmonUpdate (emit (PlotmonTuid tuid) s1) else s1);
          looped = (if is_internal
                    then Some (row_loop e plotmon_name exp_folder 0
                                 (case setpoints s2 of None \<Rightarrow> [] | Some g \<Rightarrow> rows g) ds s2)
                    else block_loop e plotmon_name exp_folder ds s2)
      in case looped of
           None \<Rightarrow> None
         | Some (Inl err, s3) \<Rightarrow> Some (Inl err, s3)
         | Some (Inr ds', s3) \<Rightarrow>
             (let s4 = finish s3;
                  s5 = emit (ToNetcdf (path_join exp_folder ''dataset.hdf5'') ds') s4
              in Some (Inr ds', s5\<lparr>plot_info := [(''2D-grid'', ABool False)]\<rparr>)))"

text \<open>
  The first part of \<open>run(name)\<close>, up to the written baseline files: the bookkeeping
  reset, the mode of the first gettable, the initial dataset with its \<open>name\<close> and plot
  hints, the experiment folder, the first dataset file and the snapshot file.  It gives
  the mode, the identifier, the folder and the dataset, or the exception raised.  With
  \<open>_setpoints\<close> still the empty list, \<open>setpoints[:, i]\<close> in \<open>initialize_dataset\<close>
  raises \<open>TypeError\<close> (a list cannot be indexed by a tuple).
\<close>

definition run_setup ::
  "env \<Rightarrow> string \<Rightarrow> state \<Rightarrow> (error + (bool \<times> string \<times> string \<times> dataset)) \<times> state" where
  "run_setup e nm s =
     (let s0 = s\<lparr>nr_acquired_values := 0\<rparr> in
      case time_time e s0 of
        (t, s1) \<Rightarrow>
          (let s2 = s1\<lparr>begintime := t\<rparr> in
           case gettable_pars s2 of
             [] \<Rightarrow> (Inl IndexError, s2)
           | g0 # gs \<Rightarrow>
               (let is_internal = internal g0 in
                case (case setpoints s2 of
                        None \<Rightarrow> Inl TypeError
                      | Some grid \<Rightarrow>
                          initialize_dataset (env_now e) (env_uuid4 e) (settable_pars s2) grid
                            (gettable_pars s2)) of
                  Inl err \<Rightarrow> (Inl err, s2)
                | Inr ds0 \<Rightarrow>
                    (let ds1 = ds0\<lparr>attrs := dict_update (dict_set ''name'' (AStr nm) (attrs ds0))
                                              (plot_info s2)\<rparr>
                     in case (map_of (attrs ds1) ''tuid'', map_of (attrs ds1) ''name'') of
                          (Some (AStr tuid), Some (AStr nm')) \<Rightarrow>
                            (case create_exp_folder tuid nm' s2 of
                               (Inl err, s3) \<Rightarrow> (Inl err, s3)
                             | (Inr exp_folder, s3) \<Rightarrow>
                                 (let s4 = emit (ToNetcdf (path_join exp_folder ''dataset.hdf5'') ds1) s3;
                                      s5 = emit (JsonDump (path_join exp_folder ''snapshot.json'')) s4
                                  in (Inr (is_internal, tuid, exp_folder, ds1), s5)))
                        | _ \<Rightarrow> (Inl KeyError, s2)))))"

text \<open>
  \<open>run(name)\<close>.  The result is the returned dataset or the exception raised, with the
  state at that moment; \<open>None\<close> when the \<open>while\<close> loop never ends.
\<close>

definition run :: "env \<Rightarrow> string \<Rightarrow> state \<Rightarrow> ((error + dataset) \<times> state) option" where
  "run e nm s =
     (case run_setup e nm s of
        (Inl err, s') \<Rightarrow> Some (Inl err, s')
      | (Inr (is_internal, tuid, exp_folder, ds), s') \<Rightarrow>
          acquire e is_internal tuid exp_folder ds s')"

text \<open>Reading a run's outcome: the result, and the events of a given kind in its trace.\<close>

definition outcome :: "((error + dataset) \<times> state) option \<Rightarrow> (error + dataset) option" where
  "outcome r = map_option fst r"

definition final_trace :: "((error + dataset) \<times> state) option \<Rightarrow> event list" where
  "final_trace r = (case r of None \<Rightarrow> [] | Some (x, s) \<Rightarrow> trace s)"

definition final_acquired :: "((error + dataset) \<times> state) option \<Rightarrow> nat option" where
  "final_acquired r = map_option (\<lambda>p. nr_acquired_values (snd p)) r"



text \<open>The data of variable \<open>key\<close> of a returned dataset.\<close>

definition array_of :: "string \<Rightarrow> (error + dataset) option \<Rightarrow> npfloat list option" where
  "array_of key r =
     (case r of
        Some (Inr ds) \<Rightarrow> map_option da_data (map_of (data_vars ds) key)
      | _ \<Rightarrow> None)"

text \<open>Two states with the same configuration of the loop.\<close>

definition same_config :: "state \<Rightarrow> state \<Rightarrow> bool" where
  "same_config s s' =
     (settable_pars s' = settable_pars s \<and> setpoints s' = setpoints s \<and>
      gettable_pars s' = gettable_pars s \<and> soft_avg s' = soft_avg s \<and>
      instr_plotmon s' = instr_plotmon s \<and> nr_acquired_values s' = nr_acquired_values s)"

text \<open>
  The number of new points a bulk read delivers, as the loop counts them (the length of
  the block's last row, nothing for a block without rows), and the total over the reads
  in a trace.
\<close>

fun block_points :: "getval \<Rightarrow> nat" where
  "block_points (Block b) = (if b = [] then 0 else length (last b))"
| "block_points (Scalar x) = 0"

fun points_of :: "event \<Rightarrow> nat" where
  "points_of (GetCall j v) = block_points v"
| "points_of ev = 0"

definition delivered :: "event list \<Rightarrow> nat" where
  "delivered tr = sum_list (map points_of tr)"



section \<open>Example collaborators and configurations\<close>

text \<open>The value of the most recent \<open>set\<close> call in a trace.\<close>

fun last_set :: "event list \<Rightarrow> npfloat option" where
  "last_set [] = None"
| "last_set (ev # evs) =
     (case last_set evs of
        Some v \<Rightarrow> Some v
      | None \<Rightarrow> (case ev of SetCall i v \<Rightarrow> Some v | _ \<Rightarrow> None))"

text \<open>A \<open>get()\<close> that returns twice the value most recently set.\<close>

definition twice_last_set :: "event list \<Rightarrow> getval" where
  "twice_last_set tr =
     Scalar (case last_set tr of Some (Num v) \<Rightarrow> Num (2 * v) | _ \<Rightarrow> NaN)"

fun is_get :: "event \<Rightarrow> bool" where
  "is_get (GetCall j v) = True"
| "is_get ev = False"

text \<open>
  A bulk read that delivers one new point per call: the block \<open>[[10]]\<close> at the first
  call, \<open>[[20]]\<close> at the second, and so on.
\<close>

definition counting_block :: "event list \<Rightarrow> getval" where
  "counting_block tr = Block [[Num (10 * real (Suc (length (filter is_get tr))))]]"

definition x_par :: par where
  "x_par = \<lparr>name = ''x'', label = ''X position'', unit = ''m'',
            has_prepare = False, has_finish = False\<rparr>"

definition y_gettable :: "bool \<Rightarrow> (event list \<Rightarrow> getval) \<Rightarrow> gettable" where
  "y_gettable is_internal g =
     \<lparr>name = ''y'', label = ''Signal amplitude'', unit = ''V'',
      has_prepare = False, has_finish = False, internal = is_internal, get = g\<rparr>"

text \<open>
  A freshly created \<open>MeasurementControl\<close> (verbose, no progress callback, one soft
  average, update interval 0.1, no plot monitor) with the given settables, set-points
  and gettables, a data directory \<open>/data\<close> and nothing done yet.
\<close>

definition mc :: "par list \<Rightarrow> ndarray2 option \<Rightarrow> gettable list \<Rightarrow> state" where
  "mc spars spts gpars =
     \<lparr>settable_pars = spars, setpoints = spts, gettable_pars = gpars,
      nr_acquired_values = 0, begintime = 0, last_upd = 0, plot_info = [],
      soft_avg = 1, update_interval = 1 / 10, instr_plotmon = None, verbose = True,
      on_progress_callback = False,
      dh = \<lparr>datadir = Some ''/data'', default_datadir = ''/pkg/data''\<rparr>,
      trace = [], ticks = 0\<rparr>"

text \<open>A clock that advances by one second at every reading, and a fixed date and token.\<close>

definition env0 :: env where
  "env0 =
     \<lparr>clock = (\<lambda>k. real k),
      env_now = \<lparr>year = 2020, month = 4, day = 30, hour = 17, minute = 8, second = 37,
                 microsecond = 1234\<rparr>,
      env_uuid4 = ''315f36aa-0000-4000-8000-000000000000''\<rparr>"

definition column_grid :: "real list \<Rightarrow> ndarray2" where
  "column_grid xs = \<lparr>nrows = length xs, ncols = 1, rows = map (\<lambda>x. [Num x]) xs\<rparr>"

text \<open>A bulk read that delivers the same one-point block \<open>[[7]]\<close> at every call.\<close>

definition constant_block :: "event list \<Rightarrow> getval" where
  "constant_block tr = Block [[Num 7]]"




section \<open>Decimal numerals\<close>

lemma of_char_digit_char: "d < 10 \<Longrightarrow> of_char (digit_char d) = 48 + d"
  by (simp add: digit_char_def)


lemma digit_char_eq: "a < 10 \<Longrightarrow> b < 10 \<Longrightarrow> digit_char a = digit_char b \<longleftrightarrow> a = b"
  by (metis of_char_digit_char add_left_cancel)

lemma digit_char_0: "digit_char 0 = CHR ''0''"
  by code_simp

lemma is_digit_digit_char: "d < 10 \<Longrightarrow> is_digit (digit_char d)"
  by (simp add: is_digit_def less_eq_char_def of_char_digit_char)

lemma digit_val_digit_char: "d < 10 \<Longrightarrow> digit_val (digit_char d) = d"
  by (simp add: digit_val_def of_char_digit_char)

lemma length_fixed [simp]: "length (fixed w n) = w"
  by (induction w arbitrary: n) auto

lemma fixed_zero: "fixed w 0 = replicate w (CHR ''0'')"
  by (induction w) (auto simp: digit_char_0 replicate_append_same)

lemma length_str_of_nat: "0 < w \<Longrightarrow> n < 10 ^ w \<Longrightarrow> length (str_of_nat n) \<le> w"
proof (induction w arbitrary: n)
  case 0
  then show ?case by simp
next
  case (Suc w)
  show ?case
  proof (cases "n < 10")
    case True
    then show ?thesis by (simp add: str_of_nat.simps[of n])
  next
    case False
    then have "0 < w" using Suc.prems by (cases w) auto
    moreover have "n div 10 < 10 ^ w" using Suc.prems by simp
    ultimately have "length (str_of_nat (n div 10)) \<le> w" by (rule Suc.IH)
    then show ?thesis using False by (simp add: str_of_nat.simps[of n])
  qed
qed

lemma zfill_str_of_nat: "0 < w \<Longrightarrow> n < 10 ^ w \<Longrightarrow> zfill w (str_of_nat n) = fixed w n"
proof (induction w arbitrary: n)
  case 0
  then show ?case by simp
next
  case (Suc w)
  show ?case
  proof (cases "n < 10")
    case True
    then show ?thesis
      by (simp add: str_of_nat.simps[of n] zfill_def fixed_zero)
  next
    case False
    then have w: "0 < w" using Suc.prems by (cases w) auto
    have lt: "n div 10 < 10 ^ w" using Suc.prems by simp
    have IH: "zfill w (str_of_nat (n div 10)) = fixed w (n div 10)"
      using w lt by (rule Suc.IH)
    have len: "length (str_of_nat (n div 10)) \<le> w"
      using w lt by (rule length_str_of_nat)
    show ?thesis using False IH len
      by (simp add: str_of_nat.simps[of n] zfill_def Suc_diff_le)
  qed
qed





lemma list_all_is_digit_fixed: "list_all is_digit (fixed w n)"
  by (induction w arbitrary: n) (auto simp: is_digit_digit_char)

lemma dot_notin_fixed: "CHR ''.'' \<notin> set (fixed w n)"
proof
  assume "CHR ''.'' \<in> set (fixed w n)"
  moreover have "\<forall>c \<in> set (fixed w n). is_digit c"
    using list_all_is_digit_fixed by (simp add: list_all_iff)
  ultimately have "is_digit (CHR ''.'')" by blast
  then show False by (simp add: is_digit_def less_eq_char_def)
qed

lemma split_on_absent: "c \<notin> set s \<Longrightarrow> split_on c s = [s]"
  by (induction s) auto

lemma split_on_once: "c \<notin> set a \<Longrightarrow> c \<notin> set b \<Longrightarrow> split_on c (a @ c # b) = [a, b]"
  by (induction a) (auto simp: split_on_absent)

lemma foldl_digits_fixed:
  "foldl (\<lambda>acc c. 10 * acc + digit_val c) k (fixed w n) = k * 10 ^ w + n mod 10 ^ w"
proof (induction w arbitrary: n k)
  case 0
  then show ?case by simp
next
  case (Suc w)
  have "(n div 10) mod 10 ^ w * 10 + n mod 10 = n mod 10 ^ Suc w"
    by (simp add: mod_mult2_eq)
  then show ?case using Suc.IH[of k "n div 10"]
    by (simp add: digit_val_digit_char algebra_simps)
qed

lemma int_of_str_fixed: "0 < w \<Longrightarrow> n < 10 ^ w \<Longrightarrow> int_of_str (fixed w n) = Inr n"
proof -
  assume w: "0 < w" and n: "n < 10 ^ w"
  have "fixed w n \<noteq> []" using w by (metis length_fixed length_0_conv less_numeral_extra(3))
  then show ?thesis using n
    by (simp add: int_of_str_def list_all_is_digit_fixed foldl_digits_fixed)
qed


lemma str_of_nat_nonempty: "str_of_nat n \<noteq> []"
  by (simp add: str_of_nat.simps[of n])

lemma str_of_nat_inj: "str_of_nat a = str_of_nat b \<Longrightarrow> a = b"
proof (induction a arbitrary: b rule: str_of_nat.induct)
  case (1 a)
  show ?case
  proof (cases "a < 10")
    case True
    then have sa: "str_of_nat a = [digit_char a]" by (simp add: str_of_nat.simps[of a])
    have "b < 10"
    proof (rule ccontr)
      assume "\<not> b < 10"
      then have "str_of_nat b = str_of_nat (b div 10) @ [digit_char (b mod 10)]"
        by (simp add: str_of_nat.simps[of b])
      then show False using sa "1.prems" str_of_nat_nonempty[of "b div 10"] by simp
    qed
    then have "str_of_nat b = [digit_char b]" by (simp add: str_of_nat.simps[of b])
    then show ?thesis using sa "1.prems" True \<open>b < 10\<close> by (simp add: digit_char_eq)
  next
    case False
    then have sa: "str_of_nat a = str_of_nat (a div 10) @ [digit_char (a mod 10)]"
      by (simp add: str_of_nat.simps[of a])
    have nb: "\<not> b < 10"
    proof
      assume "b < 10"
      then have "str_of_nat b = [digit_char b]" by (simp add: str_of_nat.simps[of b])
      then show False using sa "1.prems" str_of_nat_nonempty[of "a div 10"] by simp
    qed
    then have sb: "str_of_nat b = str_of_nat (b div 10) @ [digit_char (b mod 10)]"
      by (simp add: str_of_nat.simps[of b])
    from sa sb "1.prems" have e1: "str_of_nat (a div 10) = str_of_nat (b div 10)"
      and e2: "digit_char (a mod 10) = digit_char (b mod 10)" by simp_all
    from "1.IH"[OF False e1] have "a div 10 = b div 10" .
    moreover from e2 have "a mod 10 = b mod 10" by (simp add: digit_char_eq)
    ultimately show ?thesis by (metis div_mult_mod_eq)
  qed
qed

lemma list_all_is_digit_str_of_nat: "list_all is_digit (str_of_nat n)"
proof (induction n rule: str_of_nat.induct)
  case (1 n)
  show ?case
  proof (cases "n < 10")
    case True
    then show ?thesis by (simp add: str_of_nat.simps[of n] is_digit_digit_char)
  next
    case False
    then show ?thesis using "1.IH"
      by (simp add: str_of_nat.simps[of n] is_digit_digit_char)
  qed
qed

lemma dot_notin_str_of_nat: "CHR ''.'' \<notin> set (str_of_nat n)"
proof
  assume "CHR ''.'' \<in> set (str_of_nat n)"
  moreover have "\<forall>c \<in> set (str_of_nat n). is_digit c"
    using list_all_is_digit_str_of_nat by (simp add: list_all_iff)
  ultimately have "is_digit (CHR ''.'')" by blast
  then show False by (simp add: is_digit_def less_eq_char_def)
qed

lemma length_str_of_nat_lower: "10 ^ w \<le> n \<Longrightarrow> w < length (str_of_nat n)"
proof (induction w arbitrary: n)
  case 0
  then show ?case using str_of_nat_nonempty[of n] by (cases "str_of_nat n") auto
next
  case (Suc w)
  have "(10::nat) \<le> 10 ^ Suc w" by simp
  then have ge: "\<not> n < 10" using Suc.prems by linarith
  have "10 ^ w \<le> n div 10" using Suc.prems by (simp add: less_eq_div_iff_mult_less_eq)
  then have "w < length (str_of_nat (n div 10))" by (rule Suc.IH)
  then show ?case using ge by (simp add: str_of_nat.simps[of n])
qed

lemma str_of_nat_four_digits: "1000 \<le> n \<Longrightarrow> n < 10 ^ 4 \<Longrightarrow> str_of_nat n = fixed 4 n"
proof -
  assume lo: "1000 \<le> n" and hi: "n < 10 ^ 4"
  have "(10::nat) ^ 3 \<le> n" using lo by simp
  then have "3 < length (str_of_nat n)" by (rule length_str_of_nat_lower)
  then have "zfill 4 (str_of_nat n) = str_of_nat n" by (simp add: zfill_def)
  moreover have "zfill 4 (str_of_nat n) = fixed 4 n" using hi by (simp add: zfill_str_of_nat)
  ultimately show ?thesis by simp
qed


section \<open>Identifiers: their shape and their order\<close>

lemma strftime_tuid_fixed:
  assumes "datetime_ok ts"
  shows "strftime_tuid ts =
     ((str_of_nat (year ts) @ fixed 2 (month ts) @ fixed 2 (day ts)) @ CHR ''-'' #
      (fixed 2 (hour ts) @ fixed 2 (minute ts) @ fixed 2 (second ts)) @ [CHR ''-'']) @
     CHR ''.'' # fixed 6 (microsecond ts)"
  using assms by (simp add: strftime_tuid_def datetime_ok_def zfill_str_of_nat)

lemma gen_tuid_eq:
  assumes "datetime_ok (case tso of None \<Rightarrow> now | Some t \<Rightarrow> t)"
  shows "gen_tuid now u tso = Inr (tuid_of (case tso of None \<Rightarrow> now | Some t \<Rightarrow> t) u)"
proof -
  define ts where "ts = (case tso of None \<Rightarrow> now | Some t \<Rightarrow> t)"
  have ok: "datetime_ok ts" using assms by (simp add: ts_def)
  have us: "microsecond ts < 10 ^ 6" using ok by (simp add: datetime_ok_def)
  have ms: "microsecond ts div 1000 < 10 ^ 3" using us by simp
  have sp: "split_on (CHR ''.'') (strftime_tuid ts) =
      [(str_of_nat (year ts) @ fixed 2 (month ts) @ fixed 2 (day ts)) @ CHR ''-'' #
       (fixed 2 (hour ts) @ fixed 2 (minute ts) @ fixed 2 (second ts)) @ [CHR ''-''],
       fixed 6 (microsecond ts)]"
    unfolding strftime_tuid_fixed[OF ok]
    by (rule split_on_once) (simp_all add: dot_notin_fixed dot_notin_str_of_nat)
  have "int_of_str (fixed 6 (microsecond ts)) = Inr (microsecond ts)"
    using us by (simp add: int_of_str_fixed)
  then have "gen_tuid now u tso = Inr (tuid_of ts u)"
    using sp ms by (simp add: gen_tuid_def ts_def[symmetric] tuid_of_def zfill_str_of_nat)
  then show ?thesis by (simp add: ts_def)
qed

lemma tuid_of_four_digits:
  assumes "datetime_ok ts" and "1000 \<le> year ts"
  shows "tuid_of ts u =
     (fixed 4 (year ts) @ fixed 2 (month ts) @ fixed 2 (day ts)) @ CHR ''-'' #
     (fixed 2 (hour ts) @ fixed 2 (minute ts) @ fixed 2 (second ts)) @ CHR ''-'' #
     fixed 3 (microsecond ts div 1000) @ CHR ''-'' # take 6 u"
proof -
  have "year ts < 10 ^ 4" using assms(1) by (simp add: datetime_ok_def)
  then have "str_of_nat (year ts) = fixed 4 (year ts)"
    using assms(2) by (simp add: str_of_nat_four_digits)
  then show ?thesis by (simp add: tuid_of_def)
qed

lemma tuid_form_parts:
  assumes "length a = 8" "length b = 6" "length c = 3" "length s = 6"
    and "list_all is_digit a" "list_all is_digit b" "list_all is_digit c"
  shows "tuid_form (a @ CHR ''-'' # b @ CHR ''-'' # c @ CHR ''-'' # s)"
  using assms by (simp add: tuid_form_def nth_append)

lemma tuid_form_tuid_of:
  "datetime_ok ts \<Longrightarrow> 1000 \<le> year ts \<Longrightarrow> 6 \<le> length u \<Longrightarrow> tuid_form (tuid_of ts u)"
  unfolding tuid_of_four_digits
  by (rule tuid_form_parts) (simp_all add: list_all_is_digit_fixed)








section \<open>The data directory query\<close>

text \<open>
  C9.  The claim asks that the first query of a never-set data directory fails.  The code
  does not fail: with \<open>_datadir = None\<close> the query returns the default directory and
  stores it as the current one.  (The repository's test \<open>test_getset_datadir\<close> expects
  the query to raise.)
\<close>

theorem get_datadir_unset_returns_default:
  "get_datadir \<lparr>datadir = None, default_datadir = ''/pkg/data''\<rparr>
     = (''/pkg/data'', \<lparr>datadir = Some ''/pkg/data'', default_datadir = ''/pkg/data''\<rparr>)"
  by (simp add: get_datadir_def)


section \<open>The initial dataset\<close>

lemma x_arrays_eq:
  "i + length ps \<le> ncols g \<Longrightarrow>
   x_arrays i ps g =
     Inr (map (\<lambda>k. (''x'' @ str_of_nat (i + k),
                    \<lparr>da_data = map (\<lambda>r. r ! (i + k)) (rows g), da_attrs = par_attrs (ps ! k)\<rparr>))
            [0..<length ps])"
proof (induction ps arbitrary: i)
  case Nil
  then show ?case by simp
next
  case (Cons p ps)
  have "Suc i + length ps \<le> ncols g" using Cons.prems by simp
  from Cons.IH[OF this] show ?case using Cons.prems
    by (simp add: column_def map_upt_Suc del: upt_Suc)
qed

lemma y_arrays_eq:
  "y_arrays j ps n =
     map (\<lambda>k. (''y'' @ str_of_nat (j + k),
               \<lparr>da_data = replicate n NaN, da_attrs = par_attrs (ps ! k)\<rparr>))
       [0..<length ps]"
proof (induction ps arbitrary: j)
  case Nil
  then show ?case by simp
next
  case (Cons p ps)
  show ?case using Cons.IH[of "Suc j"]
    by (simp add: map_upt_Suc del: upt_Suc)
qed

lemma distinct_numbered_names:
  "distinct (map (\<lambda>k. c # str_of_nat k) [0..<n])"
  by (simp add: distinct_map inj_on_def) (metis str_of_nat_inj)

text \<open>The array names \<open>x0, ..., y0, ...\<close> that \<open>xr.merge\<close> receives never repeat.\<close>

lemma initialize_dataset_names_distinct:
  "distinct (map (\<lambda>k. ''x'' @ str_of_nat k) [0..<m] @ map (\<lambda>k. ''y'' @ str_of_nat k) [0..<n])"
  using distinct_numbered_names[of "CHR ''x''" m] distinct_numbered_names[of "CHR ''y''" n]
  by auto

text \<open>
  C7 (as amended: at least one settable).  For \<open>M \<ge> 1\<close> settable specs, an \<open>N \<times> M\<close>
  grid with \<open>N > 0\<close> and \<open>K\<close> gettable specs, \<open>initialize_dataset\<close> returns a dataset of
  exactly \<open>M + K\<close> arrays with pairwise distinct names, all of length \<open>N\<close>: array \<open>i\<close> is
  \<open>x{i}\<close>, holds column \<open>i\<close> of the grid and the attributes of settable \<open>i\<close>; array
  \<open>M + j\<close> is \<open>y{j}\<close>, is not-a-number throughout and has the attributes of gettable
  \<open>j\<close>; the dataset's only attribute is \<open>tuid\<close>, the identifier \<open>gen_tuid()\<close> makes from
  the clock and the random token at that moment (of the shape
  \<open>YYYYMMDD-HHMMSS-mmm-xxxxxx\<close> when the clock's year has four digits).
\<close>

theorem initialize_dataset_arrays:
  assumes "ndarray2_ok g" and "ncols g = length sps" and "0 < length sps" and "0 < nrows g"
    and "datetime_ok now" and "6 \<le> length u"
  shows "\<exists>ds. initialize_dataset now u sps g gps = Inr ds \<and>
           length (data_vars ds) = length sps + length gps \<and>
           distinct (map fst (data_vars ds)) \<and>
           list_all (\<lambda>v. length (da_data (snd v)) = nrows g) (data_vars ds) \<and>
           (\<forall>i < length sps. data_vars ds ! i =
               (''x'' @ str_of_nat i,
                \<lparr>da_data = map (\<lambda>r. r ! i) (rows g), da_attrs = par_attrs (sps ! i)\<rparr>)) \<and>
           (\<forall>j < length gps. data_vars ds ! (length sps + j) =
               (''y'' @ str_of_nat j,
                \<lparr>da_data = replicate (nrows g) NaN, da_attrs = par_attrs (gps ! j)\<rparr>)) \<and>
           attrs ds = [(''tuid'', AStr (tuid_of now u))] \<and>
           gen_tuid now u None = Inr (tuid_of now u) \<and>
           (1000 \<le> year now \<longrightarrow> tuid_form (tuid_of now u))"
proof -
  let ?xs = "map (\<lambda>k. (''x'' @ str_of_nat k,
                \<lparr>da_data = map (\<lambda>r. r ! k) (rows g), da_attrs = par_attrs (sps ! k)\<rparr>))
              [0..<length sps]"
  let ?ys = "map (\<lambda>k. (''y'' @ str_of_nat k,
                \<lparr>da_data = replicate (nrows g) NaN, da_attrs = par_attrs (gps ! k)\<rparr>))
              [0..<length gps]"
  let ?ds = "\<lparr>data_vars = ?xs @ ?ys, attrs = [(''tuid'', AStr (tuid_of now u))]\<rparr>"
  have len: "length (rows g) = nrows g" using assms(1) by (simp add: ndarray2_ok_def)
  have x: "x_arrays 0 sps g = Inr ?xs"
    using x_arrays_eq[of 0 sps g] assms(2) by simp
  have c0: "column g 0 = Inr (map (\<lambda>r. r ! 0) (rows g))"
    using assms(2,3) by (simp add: column_def)
  have y: "y_arrays 0 gps (nrows g) = ?ys"
    using y_arrays_eq[of 0 gps "nrows g"] by simp
  have t: "gen_tuid now u None = Inr (tuid_of now u)"
    using gen_tuid_eq[where tso=None and now=now and u=u] assms(5) by simp
  have r: "initialize_dataset now u sps g gps = Inr ?ds"
    by (simp add: initialize_dataset_def x c0 y t len)
  have n: "map fst (?xs @ ?ys) =
      map (\<lambda>k. ''x'' @ str_of_nat k) [0..<length sps] @ map (\<lambda>k. ''y'' @ str_of_nat k) [0..<length gps]"
    by (simp add: comp_def)
  have "distinct (map fst (?xs @ ?ys))"
    unfolding n by (rule initialize_dataset_names_distinct)
  then have d: "distinct (map fst (data_vars ?ds))"
    by (simp only: dataset.select_convs)
  have l: "list_all (\<lambda>v. length (da_data (snd v)) = nrows g) (data_vars ?ds)"
    by (auto simp add: list_all_iff len)
  have xi: "\<forall>i < length sps. data_vars ?ds ! i =
               (''x'' @ str_of_nat i,
                \<lparr>da_data = map (\<lambda>r. r ! i) (rows g), da_attrs = par_attrs (sps ! i)\<rparr>)"
    by (simp add: nth_append)
  have yj: "\<forall>j < length gps. data_vars ?ds ! (length sps + j) =
               (''y'' @ str_of_nat j,
                \<lparr>da_data = replicate (nrows g) NaN, da_attrs = par_attrs (gps ! j)\<rparr>)"
    by (simp add: nth_append)
  have f: "1000 \<le> year now \<longrightarrow> tuid_form (tuid_of now u)"
    using tuid_form_tuid_of[OF assms(5) _ assms(6)] by blast
  have ln: "length (data_vars ?ds) = length sps + length gps" by simp
  have at: "attrs ?ds = [(''tuid'', AStr (tuid_of now u))]" by simp
  show ?thesis
    by (rule exI[of _ ?ds]) (rule conjI r ln d l xi yj at t f)+
qed

theorem initialize_dataset_arrays_witness:
  "ndarray2_ok \<lparr>nrows = 4, ncols = 1, rows = [[Num 0], [Num 32], [Num 64], [Num 96]]\<rparr> \<and>
   datetime_ok \<lparr>year = 2020, month = 4, day = 30, hour = 17, minute = 8, second = 37,
                microsecond = 1234\<rparr> \<and>
   initialize_dataset
     \<lparr>year = 2020, month = 4, day = 30, hour = 17, minute = 8, second = 37, microsecond = 1234\<rparr>
     ''315f36aa-0000-4000-8000-000000000000''
     [\<lparr>name = ''x'', label = ''X position'', unit = ''m'', has_prepare = False, has_finish = False\<rparr>]
     \<lparr>nrows = 4, ncols = 1, rows = [[Num 0], [Num 32], [Num 64], [Num 96]]\<rparr>
     [\<lparr>name = ''y'', label = ''Signal amplitude'', unit = ''V'', has_prepare = False,
       has_finish = False\<rparr>]
   = Inr \<lparr>data_vars =
            [(''x0'', \<lparr>da_data = [Num 0, Num 32, Num 64, Num 96],
                       da_attrs = [(''name'', ''x''), (''long_name'', ''X position''), (''unit'', ''m'')]\<rparr>),
             (''y0'', \<lparr>da_data = [NaN, NaN, NaN, NaN],
                       da_attrs = [(''name'', ''y''), (''long_name'', ''Signal amplitude''),
                                   (''unit'', ''V'')]\<rparr>)],
          attrs = [(''tuid'', AStr ''20200430-170837-001-315f36'')]\<rparr>"
proof -
  let ?g = "\<lparr>nrows = 4, ncols = 1, rows = [[Num 0], [Num 32], [Num 64], [Num 96]]\<rparr>"
  let ?now = "\<lparr>year = 2020, month = 4, day = 30, hour = 17, minute = 8, second = 37,
                microsecond = 1234\<rparr>"
  let ?u = "''315f36aa-0000-4000-8000-000000000000''"
  let ?x = "\<lparr>name = ''x'', label = ''X position'', unit = ''m'', has_prepare = False,
             has_finish = False\<rparr>"
  let ?y = "\<lparr>name = ''y'', label = ''Signal amplitude'', unit = ''V'', has_prepare = False,
             has_finish = False\<rparr>"
  have h1: "ndarray2_ok ?g" by (simp add: ndarray2_ok_def)
  have h2: "ncols ?g = length [?x]" by simp
  have h3: "0 < length [?x]" by simp
  have h4: "0 < nrows ?g" by simp
  have h5: "datetime_ok ?now" by (simp add: datetime_ok_def)
  have h6: "6 \<le> length ?u" by simp
  from initialize_dataset_arrays[OF h1 h2 h3 h4 h5 h6, of "[?y]"]
  obtain ds where r: "initialize_dataset ?now ?u [?x] ?g [?y] = Inr ds"
    and ln: "length (data_vars ds) = length [?x] + length [?y]"
    and x: "\<forall>i < length [?x]. data_vars ds ! i =
               (''x'' @ str_of_nat i,
                \<lparr>da_data = map (\<lambda>r. r ! i) (rows ?g), da_attrs = par_attrs ([?x] ! i)\<rparr>)"
    and y: "\<forall>j < length [?y]. data_vars ds ! (length [?x] + j) =
               (''y'' @ str_of_nat j,
                \<lparr>da_data = replicate (nrows ?g) NaN, da_attrs = par_attrs ([?y] ! j)\<rparr>)"
    and a: "attrs ds = [(''tuid'', AStr (tuid_of ?now ?u))]"
    by blast
  have s0: "str_of_nat 0 = ''0''" by code_simp
  have t0: "tuid_of ?now ?u = ''20200430-170837-001-315f36''" by code_simp
  from ln obtain v0 v1 where vs: "data_vars ds = [v0, v1]"
    by (cases "data_vars ds"; cases "tl (data_vars ds)") auto
  have "v0 = (''x0'', \<lparr>da_data = [Num 0, Num 32, Num 64, Num 96],
                       da_attrs = [(''name'', ''x''), (''long_name'', ''X position''), (''unit'', ''m'')]\<rparr>)"
    using x vs by (simp add: s0 par_attrs_def)
  moreover have "v1 = (''y0'', \<lparr>da_data = [NaN, NaN, NaN, NaN],
                       da_attrs = [(''name'', ''y''), (''long_name'', ''Signal amplitude''),
                                   (''unit'', ''V'')]\<rparr>)"
    using y vs by (simp add: s0 par_attrs_def numeral_eq_Suc)
  ultimately have "ds = \<lparr>data_vars =
            [(''x0'', \<lparr>da_data = [Num 0, Num 32, Num 64, Num 96],
                       da_attrs = [(''name'', ''x''), (''long_name'', ''X position''), (''unit'', ''m'')]\<rparr>),
             (''y0'', \<lparr>da_data = [NaN, NaN, NaN, NaN],
                       da_attrs = [(''name'', ''y''), (''long_name'', ''Signal amplitude''),
                                   (''unit'', ''V'')]\<rparr>)],
          attrs = [(''tuid'', AStr ''20200430-170837-001-315f36'')]\<rparr>"
    using vs a t0 by (cases ds) simp
  then show ?thesis using r h1 h5 by simp
qed

text \<open>
  C7 as stated also covers an empty list of settables.  With no settable, one
  gettable and a \<open>1 \<times> 0\<close> grid, reading the number of points from column 0 raises
  \<open>IndexError\<close>: no dataset is built.
\<close>

theorem initialize_dataset_no_settable_counterexample:
  "initialize_dataset
     \<lparr>year = 2020, month = 4, day = 30, hour = 17, minute = 8, second = 37, microsecond = 1234\<rparr>
     ''315f36aa-0000-4000-8000-000000000000''
     ([] :: par list)
     \<lparr>nrows = 1, ncols = 0, rows = [[]]\<rparr>
     [\<lparr>name = ''y'', label = ''Signal amplitude'', unit = ''V'', has_prepare = False,
       has_finish = False\<rparr>]
   = Inl IndexError"
  by (simp add: initialize_dataset_def column_def)


section \<open>Growing and then trimming a dataset\<close>

lemma equal_lengths_all:
  "list_all (\<lambda>v. length (da_data (snd v)) = n) (data_vars ds) \<Longrightarrow> equal_lengths ds"
  by (cases "data_vars ds") (auto simp: equal_lengths_def list_all_iff)

lemma data_vars_map_arrays:
  "data_vars (map_arrays f ds) =
     map (\<lambda>v. (fst v, (snd v)\<lparr>da_data := f (da_data (snd v))\<rparr>)) (data_vars ds)"
  by (simp add: map_arrays_def)

lemma map_arrays_compose: "map_arrays f (map_arrays g ds) = map_arrays (\<lambda>d. f (g d)) ds"
  by (simp add: map_arrays_def comp_def)

lemma map_arrays_ident:
  assumes "\<forall>v \<in> set (data_vars ds). f (da_data (snd v)) = da_data (snd v)"
  shows "map_arrays f ds = ds"
proof -
  have "map (\<lambda>v. (fst v, (snd v)\<lparr>da_data := f (da_data (snd v))\<rparr>)) (data_vars ds) = data_vars ds"
    using assms by (induction "data_vars ds") (auto simp: map_idI)
  then show ?thesis by (simp add: map_arrays_def)
qed

text \<open>
  C6.  For a dataset whose arrays all have length \<open>L\<close> and a target \<open>N \<ge> L\<close>:
  \<open>grow\<close> succeeds, keeps the array names, makes every array of length \<open>N\<close> (the old
  entries followed by \<open>N - L\<close> not-a-numbers), and \<open>trim\<close> of the grown dataset to \<open>L\<close>
  returns the original dataset, every array with its original entries.
\<close>

theorem trim_grow_roundtrip:
  assumes "list_all (\<lambda>v. length (da_data (snd v)) = L) (data_vars ds)" and "L \<le> N"
  shows "\<exists>g. grow ds N = Inr g \<and>
           map fst (data_vars g) = map fst (data_vars ds) \<and>
           list_all (\<lambda>v. length (da_data (snd v)) = N) (data_vars g) \<and>
           (\<forall>k < length (data_vars ds).
               da_data (snd (data_vars g ! k)) =
                 da_data (snd (data_vars ds ! k)) @ replicate (N - L) NaN) \<and>
           trim g L = Inr ds"
proof -
  let ?pad = "\<lambda>d. d @ replicate (N - length d) NaN"
  let ?g = "map_arrays ?pad ds"
  have len: "\<forall>v \<in> set (data_vars ds). length (da_data (snd v)) = L"
    using assms(1) by (simp add: list_all_iff)
  have e: "equal_lengths ds" using assms(1) by (rule equal_lengths_all)
  have g: "grow ds N = Inr ?g" using e by (simp add: grow_def)
  have nm: "map fst (data_vars ?g) = map fst (data_vars ds)"
    by (simp add: data_vars_map_arrays comp_def)
  have lg: "list_all (\<lambda>v. length (da_data (snd v)) = N) (data_vars ?g)"
    using len assms(2) by (auto simp: data_vars_map_arrays list_all_iff)
  have eg: "equal_lengths ?g" using lg by (rule equal_lengths_all)
  have pt: "\<forall>k < length (data_vars ds).
               da_data (snd (data_vars ?g ! k)) =
                 da_data (snd (data_vars ds ! k)) @ replicate (N - L) NaN"
    using len by (simp add: data_vars_map_arrays)
  have "map_arrays (take L) ?g = map_arrays (\<lambda>d. take L (?pad d)) ds"
    by (rule map_arrays_compose)
  also have "\<dots> = ds"
    by (rule map_arrays_ident) (use len in simp)
  finally have t: "trim ?g L = Inr ds" using eg by (simp add: trim_def)
  show ?thesis
    by (rule exI[of _ ?g]) (rule conjI g nm lg pt t)+
qed

theorem trim_grow_roundtrip_witness:
  "list_all (\<lambda>v. length (da_data (snd v)) = 2)
     (data_vars \<lparr>data_vars = [(''x0'', \<lparr>da_data = [Num 1, Num 2], da_attrs = []\<rparr>),
                              (''y0'', \<lparr>da_data = [Num 3, NaN], da_attrs = []\<rparr>)],
                 attrs = []\<rparr>) \<and>
   grow \<lparr>data_vars = [(''x0'', \<lparr>da_data = [Num 1, Num 2], da_attrs = []\<rparr>),
                      (''y0'', \<lparr>da_data = [Num 3, NaN], da_attrs = []\<rparr>)],
         attrs = []\<rparr> 4
     = Inr \<lparr>data_vars = [(''x0'', \<lparr>da_data = [Num 1, Num 2, NaN, NaN], da_attrs = []\<rparr>),
                          (''y0'', \<lparr>da_data = [Num 3, NaN, NaN, NaN], da_attrs = []\<rparr>)],
             attrs = []\<rparr> \<and>
   trim \<lparr>data_vars = [(''x0'', \<lparr>da_data = [Num 1, Num 2, NaN, NaN], da_attrs = []\<rparr>),
                      (''y0'', \<lparr>da_data = [Num 3, NaN, NaN, NaN], da_attrs = []\<rparr>)],
         attrs = []\<rparr> 2
     = Inr \<lparr>data_vars = [(''x0'', \<lparr>da_data = [Num 1, Num 2], da_attrs = []\<rparr>),
                          (''y0'', \<lparr>da_data = [Num 3, NaN], da_attrs = []\<rparr>)],
             attrs = []\<rparr>"
proof -
  let ?ds = "\<lparr>data_vars = [(''x0'', \<lparr>da_data = [Num 1, Num 2], da_attrs = []\<rparr>),
                           (''y0'', \<lparr>da_data = [Num 3, NaN], da_attrs = []\<rparr>)],
              attrs = []\<rparr>"
  let ?g = "\<lparr>data_vars = [(''x0'', \<lparr>da_data = [Num 1, Num 2, NaN, NaN], da_attrs = []\<rparr>),
                          (''y0'', \<lparr>da_data = [Num 3, NaN, NaN, NaN], da_attrs = []\<rparr>)],
             attrs = []\<rparr>"
  have h1: "list_all (\<lambda>v. length (da_data (snd v)) = 2) (data_vars ?ds)" by simp
  have h2: "(2::nat) \<le> 4" by simp
  have gr: "grow ?ds 4 = Inr ?g"
    by (simp add: grow_def equal_lengths_def map_arrays_def numeral_eq_Suc)
  from trim_grow_roundtrip[OF h1 h2] obtain g where
    g: "grow ?ds 4 = Inr g" and t: "trim g 2 = Inr ?ds" by blast
  have "g = ?g" using g gr by simp
  then have "trim ?g 2 = Inr ?ds" using t by simp
  then show ?thesis using h1 gr by blast
qed


section \<open>The tiled set-point grid\<close>

lemma length_concat_blocks:
  "\<forall>x \<in> set xss. length x = n \<Longrightarrow> length (concat xss) = length xss * n"
  by (induction xss) auto

lemma concat_nth_blocks:
  "\<forall>x \<in> set xss. length x = n \<Longrightarrow> r < length xss * n \<Longrightarrow>
   concat xss ! r = xss ! (r div n) ! (r mod n)"
proof (induction xss arbitrary: r)
  case Nil
  then show ?case by simp
next
  case (Cons x xss)
  have n: "0 < n" using Cons.prems(2) by (cases n) auto
  show ?case
  proof (cases "r < n")
    case True
    then show ?thesis using Cons.prems(1) by (simp add: nth_append)
  next
    case False
    then have ge: "n \<le> r" by simp
    have lt: "r - n < length xss * n" using Cons.prems(2) ge by simp
    have IH: "concat xss ! (r - n) = xss ! ((r - n) div n) ! ((r - n) mod n)"
      using Cons.IH[of "r - n"] Cons.prems(1) lt by simp
    have d: "r div n = Suc ((r - n) div n)" using ge n by (simp add: le_div_geq)
    have m: "r mod n = (r - n) mod n" using ge by (simp add: le_mod_geq)
    show ?thesis using False Cons.prems(1) IH by (simp add: nth_append d m)
  qed
qed

lemma length_np_tile [simp]: "length (np_tile a k) = k * length a"
  by (simp add: np_tile_def length_concat_blocks[where n = "length a"])

lemma nth_np_tile: "r < k * length a \<Longrightarrow> np_tile a k ! r = a ! (r mod length a)"
proof -
  assume r: "r < k * length a"
  then have "0 < length a" by (cases "length a") auto
  then have "r div length a < k" using r by (simp add: less_mult_imp_div_less)
  then show ?thesis using r
    by (simp add: np_tile_def concat_nth_blocks[where n = "length a"])
qed

lemma length_np_repeat [simp]: "length (np_repeat b k) = length b * k"
  by (simp add: np_repeat_def length_concat_blocks[where n = k])

lemma nth_np_repeat: "r < length b * k \<Longrightarrow> np_repeat b k ! r = b ! (r div k)"
proof -
  assume r: "r < length b * k"
  then have k: "0 < k" by (cases k) auto
  have "r div k < length b" using r by (simp add: less_mult_imp_div_less)
  then show ?thesis using r k
    by (simp add: np_repeat_def concat_nth_blocks[where n = k])
qed

lemma length_snoc_rows [simp]: "length (snoc_rows R b) = length R * length b"
  by (simp add: snoc_rows_def length_concat_blocks[where n = "length R"])

lemma nth_snoc_rows:
  "r < length R * length b \<Longrightarrow>
   snoc_rows R b ! r = R ! (r mod length R) @ [b ! (r div length R)]"
proof -
  assume r: "r < length R * length b"
  then have k: "0 < length R" by (cases "length R") auto
  have d: "r div length R < length b" using r
    by (simp add: less_mult_imp_div_less mult.commute)
  have "r < length (map (\<lambda>y. map (\<lambda>row. row @ [y]) R) b) * length R"
    using r by (simp add: mult.commute)
  then show ?thesis using d k
    by (simp add: snoc_rows_def concat_nth_blocks[where n = "length R"])
qed

lemma set_snoc_rows: "set (snoc_rows R b) = (\<Union>y \<in> set b. (\<lambda>row. row @ [y]) ` set R)"
  by (auto simp: snoc_rows_def)

lemma column_stack_eq:
  "cols \<noteq> [] \<Longrightarrow> \<forall>d \<in> set cols. length d = n \<Longrightarrow>
   column_stack cols =
     Inr \<lparr>nrows = n, ncols = length cols, rows = map (\<lambda>r. map (\<lambda>d. d ! r) cols) [0..<n]\<rparr>"
  by (cases cols) (auto simp: column_stack_def list_all_iff)

lemma tile_step_eq:
  assumes "ndarray2_ok xn"
  shows "tile_step xn b =
           Inr \<lparr>nrows = nrows xn * length b, ncols = Suc (ncols xn),
                rows = snoc_rows (rows xn) b\<rparr>"
proof -
  let ?n = "nrows xn * length b"
  let ?cols = "map (\<lambda>i. np_tile (col_of xn i) (length b)) [0..<ncols xn]
                 @ [np_repeat b (nrows xn)]"
  have lr: "length (rows xn) = nrows xn" using assms by (simp add: ndarray2_ok_def)
  have lrow: "\<forall>row \<in> set (rows xn). length row = ncols xn"
    using assms by (simp add: ndarray2_ok_def list_all_iff)
  have lc: "length (col_of xn i) = nrows xn" for i by (simp add: col_of_def lr)
  have all: "\<forall>d \<in> set ?cols. length d = ?n" by (auto simp: lc mult.commute)
  have ne: "?cols \<noteq> []" by simp
  have lcols: "length ?cols = Suc (ncols xn)" by simp
  have cs: "column_stack ?cols =
      Inr \<lparr>nrows = ?n, ncols = Suc (ncols xn), rows = map (\<lambda>r. map (\<lambda>d. d ! r) ?cols) [0..<?n]\<rparr>"
    using column_stack_eq[OF ne all] by (simp only: lcols)
  have "map (\<lambda>r. map (\<lambda>d. d ! r) ?cols) [0..<?n] = snoc_rows (rows xn) b"
  proof (rule nth_equalityI)
    show "length (map (\<lambda>r. map (\<lambda>d. d ! r) ?cols) [0..<?n]) = length (snoc_rows (rows xn) b)"
      by (simp add: lr)
  next
    fix r assume "r < length (map (\<lambda>r. map (\<lambda>d. d ! r) ?cols) [0..<?n])"
    then have r: "r < nrows xn * length b" by simp
    then have pos: "0 < nrows xn" by (cases "nrows xn") auto
    have m: "r mod nrows xn < nrows xn" using pos by simp
    have rowlen: "length (rows xn ! (r mod nrows xn)) = ncols xn"
      using lrow m lr by (metis nth_mem)
    have t: "map (\<lambda>i. np_tile (col_of xn i) (length b) ! r) [0..<ncols xn]
               = rows xn ! (r mod nrows xn)"
    proof (rule nth_equalityI)
      show "length (map (\<lambda>i. np_tile (col_of xn i) (length b) ! r) [0..<ncols xn])
              = length (rows xn ! (r mod nrows xn))"
        using rowlen by simp
    next
      fix i assume "i < length (map (\<lambda>i. np_tile (col_of xn i) (length b) ! r) [0..<ncols xn])"
      then have i: "i < ncols xn" by simp
      have "np_tile (col_of xn i) (length b) ! r = col_of xn i ! (r mod nrows xn)"
        using r nth_np_tile[of r "length b" "col_of xn i"] by (simp add: lc mult.commute)
      also have "\<dots> = rows xn ! (r mod nrows xn) ! i"
        using m lr by (simp add: col_of_def)
      finally show "map (\<lambda>i. np_tile (col_of xn i) (length b) ! r) [0..<ncols xn] ! i
                      = rows xn ! (r mod nrows xn) ! i"
        using i by simp
    qed
    have p: "np_repeat b (nrows xn) ! r = b ! (r div nrows xn)"
      using r by (simp add: nth_np_repeat mult.commute)
    have "map (\<lambda>d. d ! r) ?cols = rows xn ! (r mod nrows xn) @ [b ! (r div nrows xn)]"
      using t p by (simp add: comp_def)
    then show "map (\<lambda>r. map (\<lambda>d. d ! r) ?cols) [0..<?n] ! r = snoc_rows (rows xn) b ! r"
      using r by (simp add: nth_snoc_rows lr del: upt_Suc)
  qed
  then show ?thesis using cs by (simp add: tile_step_def Let_def)
qed

lemma ndarray2_ok_snoc_rows:
  assumes "ndarray2_ok xn"
  shows "ndarray2_ok \<lparr>nrows = nrows xn * length b, ncols = Suc (ncols xn),
                      rows = snoc_rows (rows xn) b\<rparr>"
  using assms by (auto simp: ndarray2_ok_def list_all_iff set_snoc_rows)

lemma tile_loop_eq:
  "ndarray2_ok xn \<Longrightarrow>
   tile_loop xn rest =
     Inr \<lparr>nrows = nrows xn * prod_list (map length rest), ncols = ncols xn + length rest,
          rows = foldl snoc_rows (rows xn) rest\<rparr>"
proof (induction rest arbitrary: xn)
  case Nil
  then show ?case by simp
next
  case (Cons b rest)
  let ?xn' = "\<lparr>nrows = nrows xn * length b, ncols = Suc (ncols xn),
               rows = snoc_rows (rows xn) b\<rparr>"
  have ok': "ndarray2_ok ?xn'" using Cons.prems by (rule ndarray2_ok_snoc_rows)
  have "tile_loop xn (b # rest) = tile_loop ?xn' rest"
    using tile_step_eq[OF Cons.prems, of b] by simp
  also have "\<dots> = Inr \<lparr>nrows = nrows ?xn' * prod_list (map length rest),
                       ncols = ncols ?xn' + length rest,
                       rows = foldl snoc_rows (rows ?xn') rest\<rparr>"
    using ok' by (rule Cons.IH)
  finally show ?case by (simp add: mult.assoc)
qed

lemma ndarray2_ok_foldl_snoc_rows:
  "ndarray2_ok xn \<Longrightarrow>
   ndarray2_ok \<lparr>nrows = nrows xn * prod_list (map length rest), ncols = ncols xn + length rest,
                rows = foldl snoc_rows (rows xn) rest\<rparr>"
proof (induction rest arbitrary: xn)
  case Nil
  then show ?case by (simp add: ndarray2_ok_def)
next
  case (Cons b rest)
  from Cons.IH[OF ndarray2_ok_snoc_rows[OF Cons.prems, of b]]
  show ?case by (simp add: mult.assoc)
qed

lemma mod_div_mod_cancel:
  fixes r :: nat
  shows "(r mod (P * (l * Q))) div P mod l = (r div P) mod l"
proof (cases "P = 0")
  case True
  then show ?thesis by simp
next
  case False
  have "(r mod (P * (l * Q))) div P = (r div P) mod (l * Q)"
    using False by (simp add: mod_mult2_eq)
  then show ?thesis by (simp add: mod_mod_cancel)
qed

lemma prod_list_split_nth:
  fixes lens :: "nat list"
  shows "j < length lens \<Longrightarrow>
   prod_list lens = prod_list (take j lens) * (lens ! j * prod_list (drop (Suc j) lens))"
proof -
  assume "j < length lens"
  then have "lens = take j lens @ lens ! j # drop (Suc j) lens" by (rule id_take_nth_drop)
  then have "prod_list lens = prod_list (take j lens @ lens ! j # drop (Suc j) lens)" by simp
  then show ?thesis by simp
qed

lemma snoc_rows_index:
  assumes l: "length R = prod_list (map length pre)"
    and ix: "\<forall>r < length R. R ! r =
               map (\<lambda>j. pre ! j ! grid_index (map length pre) j r) [0..<length pre]"
    and r: "r < length R * length b"
  shows "snoc_rows R b ! r =
           map (\<lambda>j. (pre @ [b]) ! j ! grid_index (map length (pre @ [b])) j r)
             [0..<length (pre @ [b])]"
proof -
  let ?k = "length pre"
  let ?lens = "map length pre"
  have pos: "0 < length R" using r by (cases "length R") auto
  have m: "r mod length R < length R" using pos by simp
  have d: "r div length R < length b" using r by (simp add: less_mult_imp_div_less mult.commute)
  have last: "(pre @ [b]) ! ?k ! grid_index (map length (pre @ [b])) ?k r = b ! (r div length R)"
    using d by (simp add: grid_index_def l nth_append)
  have front: "(pre @ [b]) ! j ! grid_index (map length (pre @ [b])) j r
                 = pre ! j ! grid_index ?lens j (r mod length R)" if j: "j < ?k" for j
  proof -
    have "length R = prod_list (take j ?lens) * (?lens ! j * prod_list (drop (Suc j) ?lens))"
      unfolding l using j by (intro prod_list_split_nth) simp
    then have "(r mod length R) div prod_list (take j ?lens) mod (?lens ! j)
                 = (r div prod_list (take j ?lens)) mod (?lens ! j)"
      by (simp only: mod_div_mod_cancel)
    then show ?thesis using j by (simp add: grid_index_def nth_append)
  qed
  have "snoc_rows R b ! r = R ! (r mod length R) @ [b ! (r div length R)]"
    using r by (rule nth_snoc_rows)
  also have "R ! (r mod length R) =
      map (\<lambda>j. pre ! j ! grid_index ?lens j (r mod length R)) [0..<?k]"
    using ix m by blast
  also have "\<dots> = map (\<lambda>j. (pre @ [b]) ! j ! grid_index (map length (pre @ [b])) j r) [0..<?k]"
    using front by simp
  finally show ?thesis using last by simp
qed

lemma foldl_snoc_rows_index:
  assumes "length R = prod_list (map length pre)"
    and "\<forall>r < length R. R ! r =
               map (\<lambda>j. pre ! j ! grid_index (map length pre) j r) [0..<length pre]"
  shows "length (foldl snoc_rows R rest) = prod_list (map length (pre @ rest)) \<and>
         (\<forall>r < length (foldl snoc_rows R rest). foldl snoc_rows R rest ! r =
               map (\<lambda>j. (pre @ rest) ! j ! grid_index (map length (pre @ rest)) j r)
                 [0..<length (pre @ rest)])"
  using assms
proof (induction rest arbitrary: R pre)
  case Nil
  then show ?case by simp
next
  case (Cons b rest)
  have l': "length (snoc_rows R b) = prod_list (map length (pre @ [b]))"
    using Cons.prems(1) by simp
  have ix': "\<forall>r < length (snoc_rows R b). snoc_rows R b ! r =
               map (\<lambda>j. (pre @ [b]) ! j ! grid_index (map length (pre @ [b])) j r)
                 [0..<length (pre @ [b])]"
    using snoc_rows_index[OF Cons.prems(1) Cons.prems(2)] by simp
  from Cons.IH[OF l' ix'] show ?case by simp
qed

lemma image_mset_sum_list:
  "image_mset f (sum_list Ms) = sum_list (map (image_mset f) Ms)"
  by (induction Ms) auto

lemma sum_list_swap:
  fixes f :: "'a \<Rightarrow> 'b \<Rightarrow> 'c::comm_monoid_add"
  shows "(\<Sum>x\<leftarrow>xs. \<Sum>y\<leftarrow>ys. f x y) = (\<Sum>y\<leftarrow>ys. \<Sum>x\<leftarrow>xs. f x y)"
  by (induction xs) (simp_all add: sum_list_addf)

lemma mset_snoc_rows:
  "mset (snoc_rows R b) = (\<Sum>y\<leftarrow>b. image_mset (\<lambda>row. row @ [y]) (mset R))"
  by (simp add: snoc_rows_def mset_concat comp_def)

lemma mset_product_lists_Cons:
  "mset (product_lists (xs # xss)) = (\<Sum>x\<leftarrow>xs. image_mset (Cons x) (mset (product_lists xss)))"
  by (simp add: mset_concat comp_def)

lemma mset_product_lists_snoc:
  "mset (product_lists (xss @ [b])) = mset (snoc_rows (product_lists xss) b)"
proof (induction xss)
  case Nil
  show ?case by (simp add: snoc_rows_def comp_def)
next
  case (Cons xs xss)
  let ?P = "mset (product_lists xss)"
  have "mset (product_lists ((xs # xss) @ [b]))
          = (\<Sum>x\<leftarrow>xs. image_mset (Cons x) (mset (snoc_rows (product_lists xss) b)))"
    using Cons.IH by (simp add: mset_concat comp_def)
  also have "\<dots> = (\<Sum>x\<leftarrow>xs. \<Sum>y\<leftarrow>b. image_mset (\<lambda>row. x # row @ [y]) ?P)"
    by (simp add: mset_snoc_rows image_mset_sum_list comp_def multiset.map_comp)
  also have "\<dots> = (\<Sum>y\<leftarrow>b. \<Sum>x\<leftarrow>xs. image_mset (\<lambda>row. x # row @ [y]) ?P)"
    by (rule sum_list_swap)
  also have "\<dots> = mset (snoc_rows (product_lists (xs # xss)) b)"
    by (simp add: mset_snoc_rows mset_product_lists_Cons image_mset_sum_list comp_def
        multiset.map_comp del: product_lists.simps)
  finally show ?case .
qed

lemma mset_foldl_snoc_rows:
  "mset R = mset (product_lists pre) \<Longrightarrow>
   mset (foldl snoc_rows R rest) = mset (product_lists (pre @ rest))"
proof (induction rest arbitrary: R pre)
  case Nil
  then show ?case by simp
next
  case (Cons b rest)
  have "mset (snoc_rows R b) = mset (product_lists (pre @ [b]))"
    using Cons.prems by (simp add: mset_snoc_rows mset_product_lists_snoc)
  from Cons.IH[OF this] show ?case by simp
qed

text \<open>
  C10.  For a non-empty list of one-dimensional arrays, \<open>tile_setpoints_grid\<close> returns a
  well-shaped grid with as many rows as the product of the array lengths and one column
  per array.  Entry \<open>j\<close> of row \<open>r\<close> is the entry of array \<open>j\<close> at position
  \<open>(r div (n\<^sub>0 \<cdot> ... \<cdot> n\<^bsub>j-1\<^esub>)) mod n\<^sub>j\<close>: the first array varies fastest (column 0 is the
  first array tiled), and each later array is repeated over all combinations of the
  earlier ones.  As a multiset the rows are exactly the combinations of one entry per
  array (\<open>product_lists\<close>), each choice of positions appearing as exactly one row.
\<close>

theorem tile_setpoints_grid_rows:
  assumes "arrays \<noteq> []"
  shows "\<exists>xn. tile_setpoints_grid arrays = Inr xn \<and>
           ndarray2_ok xn \<and>
           nrows xn = prod_list (map length arrays) \<and>
           ncols xn = length arrays \<and>
           (\<forall>r < nrows xn. \<forall>j < length arrays.
               rows xn ! r ! j = arrays ! j ! grid_index (map length arrays) j r) \<and>
           mset (rows xn) = mset (product_lists arrays)"
proof -
  obtain s0 rest where sp: "arrays = s0 # rest" using assms by (cases arrays) auto
  let ?R0 = "map (\<lambda>x. [x]) s0"
  let ?xn = "\<lparr>nrows = length s0 * prod_list (map length rest), ncols = 1 + length rest,
              rows = foldl snoc_rows ?R0 rest\<rparr>"
  have ok0: "ndarray2_ok (reshape_column s0)"
    by (simp add: reshape_column_def ndarray2_ok_def list_all_iff)
  have res: "tile_setpoints_grid arrays = Inr ?xn"
    using tile_loop_eq[OF ok0, of rest] by (simp add: tile_setpoints_grid_def sp reshape_column_def)
  have ok: "ndarray2_ok ?xn"
    using ndarray2_ok_foldl_snoc_rows[OF ok0, of rest] by (simp add: reshape_column_def)
  have nr: "nrows ?xn = prod_list (map length arrays)" by (simp add: sp)
  have nc: "ncols ?xn = length arrays" by (simp add: sp)
  have l0: "length ?R0 = prod_list (map length [s0])" by simp
  have ix0: "\<forall>r < length ?R0. ?R0 ! r =
               map (\<lambda>j. [s0] ! j ! grid_index (map length [s0]) j r) [0..<length [s0]]"
    by (simp add: grid_index_def)
  from foldl_snoc_rows_index[OF l0 ix0, of rest]
  have len: "length (foldl snoc_rows ?R0 rest) = prod_list (map length arrays)"
    and ix: "\<forall>r < length (foldl snoc_rows ?R0 rest). foldl snoc_rows ?R0 rest ! r =
               map (\<lambda>j. arrays ! j ! grid_index (map length arrays) j r)
                 [0..<length arrays]"
    by (simp_all add: sp)
  have ent: "\<forall>r < nrows ?xn. \<forall>j < length arrays.
               rows ?xn ! r ! j = arrays ! j ! grid_index (map length arrays) j r"
  proof (intro allI impI)
    fix r j assume r: "r < nrows ?xn" and j: "j < length arrays"
    have "r < length (foldl snoc_rows ?R0 rest)" using r len by (simp add: sp)
    then have "foldl snoc_rows ?R0 rest ! r =
               map (\<lambda>j. arrays ! j ! grid_index (map length arrays) j r)
                 [0..<length arrays]"
      using ix by blast
    then show "rows ?xn ! r ! j = arrays ! j ! grid_index (map length arrays) j r"
      using j by simp
  qed
  have "mset ?R0 = mset (product_lists [s0])" by (simp add: comp_def)
  from mset_foldl_snoc_rows[OF this, of rest]
  have ms: "mset (rows ?xn) = mset (product_lists arrays)" by (simp add: sp)
  show ?thesis
    by (rule exI[of _ ?xn]) (rule conjI res ok nr nc ent ms)+
qed

theorem tile_setpoints_grid_rows_witness:
  "[[Num 1, Num 2, Num 3], [Num 10, Num 20]] \<noteq> [] \<and>
   tile_setpoints_grid [[Num 1, Num 2, Num 3], [Num 10, Num 20]]
     = Inr \<lparr>nrows = 6, ncols = 2,
            rows = [[Num 1, Num 10], [Num 2, Num 10], [Num 3, Num 10],
                    [Num 1, Num 20], [Num 2, Num 20], [Num 3, Num 20]]\<rparr> \<and>
   mset [[Num 1, Num 10], [Num 2, Num 10], [Num 3, Num 10],
         [Num 1, Num 20], [Num 2, Num 20], [Num 3, Num 20]]
     = mset (product_lists [[Num 1, Num 2, Num 3], [Num 10, Num 20]])"
proof -
  let ?sp = "[[Num 1, Num 2, Num 3], [Num 10, Num 20]]"
  let ?xn = "\<lparr>nrows = 6, ncols = 2,
            rows = [[Num 1, Num 10], [Num 2, Num 10], [Num 3, Num 10],
                    [Num 1, Num 20], [Num 2, Num 20], [Num 3, Num 20]]\<rparr>"
  have h: "?sp \<noteq> []" by simp
  have e: "tile_setpoints_grid ?sp = Inr ?xn" by code_simp
  from tile_setpoints_grid_rows[OF h] obtain xn where
    r: "tile_setpoints_grid ?sp = Inr xn" and m: "mset (rows xn) = mset (product_lists ?sp)"
    by blast
  have "xn = ?xn" using r e by simp
  then have "mset (rows ?xn) = mset (product_lists ?sp)" using m by simp
  then show ?thesis using h e by simp
qed


section \<open>The acquisition loop\<close>

lemmas mc_defs =
  run_def run_setup_def acquire_def prepare_def finish_def finish_targets_def update_def print_progress_def
  get_fracdone_def len_setpoints_def time_time_def emit_def create_exp_folder_def
  path_join_def plotmon_active_def get_datadir_def block_step_def set_getval_def
  set_entry_def initialize_dataset_def column_def par_attrs_def dict_update_def
  outcome_def final_trace_def final_acquired_def array_of_def
  mc_def env0_def x_par_def y_gettable_def column_grid_def twice_last_set_def
  TUID_is_valid_def

lemma str_of_nat_0: "str_of_nat 0 = ''0''"
  by code_simp

lemma env0_tuid:
  "gen_tuid \<lparr>year = 2020, month = 4, day = 30, hour = 17, minute = 8, second = 37,
              microsecond = 1234\<rparr> ''315f36aa-0000-4000-8000-000000000000'' None
     = Inr ''20200430-170837-001-315f36''"
  by code_simp

lemma env0_tuid_form: "tuid_form ''20200430-170837-001-315f36''"
  by code_simp

subsection \<open>Frame lemmas\<close>

lemma same_config_refl [simp]: "same_config s s"
  by (simp add: same_config_def)

lemma same_config_trans: "same_config a b \<Longrightarrow> same_config b c \<Longrightarrow> same_config a c"
  by (simp add: same_config_def)

lemma call_hooks_frame:
  assumes "\<And>k. \<not> is_get (ev k)"
  shows "same_config s (call_hooks has ev i ps s) \<and>
         filter is_get (trace (call_hooks has ev i ps s)) = filter is_get (trace s)"
proof (induction ps arbitrary: i s)
  case Nil
  show ?case by simp
next
  case (Cons p ps)
  have e: "same_config s (emit (ev i) s) \<and>
           filter is_get (trace (emit (ev i) s)) = filter is_get (trace s)"
    using assms by (simp add: emit_def same_config_def)
  show ?case
  proof (cases "has p")
    case True
    with Cons.IH[where i="Suc i" and s="emit (ev i) s"] e show ?thesis
      by (auto intro: same_config_trans)
  next
    case False
    then show ?thesis by simp
  qed
qed

lemma prepare_frame:
  "same_config s (prepare s) \<and> filter is_get (trace (prepare s)) = filter is_get (trace s)"
proof -
  let ?s1 = "call_hooks has_prepare (\<lambda>i. PrepareCall (Settable i)) 0 (settable_pars s) s"
  have a: "same_config s ?s1 \<and> filter is_get (trace ?s1) = filter is_get (trace s)"
    by (rule call_hooks_frame) simp
  have b: "same_config ?s1 (call_hooks has_prepare (\<lambda>j. PrepareCall (Gettable j)) 0 (gettable_pars ?s1) ?s1) \<and>
           filter is_get (trace (call_hooks has_prepare (\<lambda>j. PrepareCall (Gettable j)) 0 (gettable_pars ?s1) ?s1))
             = filter is_get (trace ?s1)"
    by (rule call_hooks_frame) simp
  show ?thesis using a b by (auto simp: prepare_def Let_def intro: same_config_trans)
qed

lemma finish_frame:
  "same_config s (finish s) \<and> filter is_get (trace (finish s)) = filter is_get (trace s)"
  unfolding finish_def by (rule call_hooks_frame) simp

lemma fracdone_less:
  "0 < t \<Longrightarrow> (real a / real t < 100) = (a < 100 * t)"
proof -
  assume t: "0 < t"
  then have "(real a / real t < 100) = (real a < 100 * real t)"
    by (simp add: divide_less_eq)
  also have "\<dots> = (real a < real (100 * t))" by simp
  also have "\<dots> = (a < 100 * t)" by (simp only: of_nat_less_iff)
  finally show ?thesis .
qed

lemma update_frame:
  assumes "0 < len_setpoints s * soft_avg s"
  shows "\<exists>s'. update e ds pm f s = (Inr (), s') \<and> same_config s s' \<and>
              filter is_get (trace s') = filter is_get (trace s)"
  using assms
  by (auto simp: update_def print_progress_def get_fracdone_def time_time_def emit_def
      len_setpoints_def same_config_def Let_def split: option.splits)

lemma map_of_dict_set:
  "map_of (dict_set k v kvs) k' = (if k' = k then Some v else map_of kvs k')"
  by (induction kvs) auto

lemma set_entry_ok:
  "map_of (data_vars ds) k = Some da \<Longrightarrow> i < length (da_data da) \<Longrightarrow>
   set_entry k i v ds =
     Inr (ds\<lparr>data_vars := dict_set k (da\<lparr>da_data := (da_data da)[i := v]\<rparr>) (data_vars ds)\<rparr>)"
  by (simp add: set_entry_def)

lemma block_step_one_point:
  assumes g: "gettable_pars s = g # gs" and v: "get g (trace s) = Block [[v]]"
    and y: "map_of (data_vars ds) ''y0'' = Some da" and l: "0 < length (da_data da)"
    and t: "0 < len_setpoints s * soft_avg s"
  shows "\<exists>s'. block_step e pm f ds s =
             (Inr (ds\<lparr>data_vars := dict_set ''y0'' (da\<lparr>da_data := (da_data da)[0 := v]\<rparr>)
                                      (data_vars ds)\<rparr>), s') \<and>
           settable_pars s' = settable_pars s \<and> setpoints s' = setpoints s \<and>
           gettable_pars s' = gettable_pars s \<and> soft_avg s' = soft_avg s \<and>
           instr_plotmon s' = instr_plotmon s \<and>
           nr_acquired_values s' = Suc (nr_acquired_values s) \<and>
           filter is_get (trace s') = filter is_get (trace s) @ [GetCall 0 (Block [[v]])]"
proof -
  let ?dsn = "ds\<lparr>data_vars := dict_set ''y0'' (da\<lparr>da_data := (da_data da)[0 := v]\<rparr>)
                                      (data_vars ds)\<rparr>"
  let ?s2 = "(emit (GetCall 0 (Block [[v]])) s)\<lparr>nr_acquired_values :=
               nr_acquired_values (emit (GetCall 0 (Block [[v]])) s) + 1\<rparr>"
  have w: "write_block 0 [[v]] 0 ds = Inr (?dsn, 1)"
    using set_entry_ok[OF y l, of v] by (simp add: str_of_nat_0)
  have t2: "0 < len_setpoints ?s2 * soft_avg ?s2"
    using t by (simp add: len_setpoints_def emit_def)
  from update_frame[OF t2, of e ?dsn pm f] obtain sn where
    u: "update e ?dsn pm f ?s2 = (Inr (), sn)" and c: "same_config ?s2 sn"
    and tr: "filter is_get (trace sn) = filter is_get (trace ?s2)" by blast
  have "block_step e pm f ds s = (Inr ?dsn, sn)"
    using g v w u by (simp add: block_step_def Let_def)
  moreover have "settable_pars sn = settable_pars s \<and> setpoints sn = setpoints s \<and>
           gettable_pars sn = gettable_pars s \<and> soft_avg sn = soft_avg s \<and>
           instr_plotmon sn = instr_plotmon s \<and>
           nr_acquired_values sn = Suc (nr_acquired_values s)"
    using c by (simp add: same_config_def emit_def)
  moreover have "filter is_get (trace sn) = filter is_get (trace s) @ [GetCall 0 (Block [[v]])]"
    using tr by (simp add: emit_def)
  ultimately show ?thesis by blast
qed

lemma block_loop_counting:
  assumes "gettable_pars s = g # gs" and "get g = counting_block"
    and "0 < len_setpoints s * soft_avg s"
    and "length (filter is_get (trace s)) = nr_acquired_values s"
    and "map_of (data_vars ds) ''y0'' = Some da" and "0 < length (da_data da)"
    and "nr_acquired_values s + n = 100 * (len_setpoints s * soft_avg s)"
  shows "\<exists>dsn sn. block_loop e pm f ds s = Some (Inr dsn, sn) \<and>
           nr_acquired_values sn = 100 * (len_setpoints s * soft_avg s) \<and>
           length (filter is_get (trace sn)) = 100 * (len_setpoints s * soft_avg s) \<and>
           map_of (data_vars dsn) ''y0'' =
             Some (if n = 0 then da
                   else da\<lparr>da_data := (da_data da)
                          [0 := Num (10 * real (100 * (len_setpoints s * soft_avg s)))]\<rparr>)"
  using assms
proof (induction n arbitrary: s ds da)
  case 0
  let ?T = "len_setpoints s * soft_avg s"
  have f: "get_fracdone s = Inr (real (nr_acquired_values s) / real ?T)"
    using "0.prems"(3) by (simp add: get_fracdone_def)
  have "\<not> nr_acquired_values s < 100 * ?T" using "0.prems"(7) by simp
  then have "\<not> real (nr_acquired_values s) / real ?T < 100"
    using fracdone_less[OF "0.prems"(3), of "nr_acquired_values s"] by blast
  then have "block_loop e pm f ds s = Some (Inr ds, s)"
    using f by (subst block_loop.simps) simp
  then show ?case using "0.prems" by simp
next
  case (Suc n)
  let ?T = "len_setpoints s * soft_avg s"
  let ?v = "Num (10 * real (Suc (nr_acquired_values s)))"
  let ?da1 = "da\<lparr>da_data := (da_data da)[0 := ?v]\<rparr>"
  let ?ds1 = "ds\<lparr>data_vars := dict_set ''y0'' ?da1 (data_vars ds)\<rparr>"
  have f: "get_fracdone s = Inr (real (nr_acquired_values s) / real ?T)"
    using Suc.prems(3) by (simp add: get_fracdone_def)
  have "nr_acquired_values s < 100 * ?T" using Suc.prems(7) by simp
  then have lt: "real (nr_acquired_values s) / real ?T < 100"
    using fracdone_less[OF Suc.prems(3), of "nr_acquired_values s"] by blast
  have v: "get g (trace s) = Block [[?v]]"
    using Suc.prems(2,4) by (simp add: counting_block_def)
  from block_step_one_point[OF Suc.prems(1) v Suc.prems(5) Suc.prems(6) Suc.prems(3), of e pm f]
  obtain s1 where st: "block_step e pm f ds s = (Inr ?ds1, s1)"
    and c1: "setpoints s1 = setpoints s" "gettable_pars s1 = gettable_pars s"
            "soft_avg s1 = soft_avg s"
    and a1: "nr_acquired_values s1 = Suc (nr_acquired_values s)"
    and t1: "filter is_get (trace s1) = filter is_get (trace s) @ [GetCall 0 (Block [[?v]])]"
    by blast
  have T1: "len_setpoints s1 * soft_avg s1 = ?T" using c1 by (simp add: len_setpoints_def)
  have un: "block_loop e pm f ds s = block_loop e pm f ?ds1 s1"
    using f lt st by (subst block_loop.simps) simp
  have p1: "gettable_pars s1 = g # gs" using c1 Suc.prems(1) by simp
  have p3: "0 < len_setpoints s1 * soft_avg s1" using T1 Suc.prems(3) by simp
  have p4: "length (filter is_get (trace s1)) = nr_acquired_values s1"
    using t1 a1 Suc.prems(4) by simp
  have p5: "map_of (data_vars ?ds1) ''y0'' = Some ?da1" by (simp add: map_of_dict_set)
  have p6: "0 < length (da_data ?da1)" using Suc.prems(6) by simp
  have p7: "nr_acquired_values s1 + n = 100 * (len_setpoints s1 * soft_avg s1)"
    using a1 T1 Suc.prems(7) by simp
  from Suc.IH[OF p1 Suc.prems(2) p3 p4 p5 p6 p7]
  obtain dsn sn where r: "block_loop e pm f ?ds1 s1 = Some (Inr dsn, sn)"
    and ra: "nr_acquired_values sn = 100 * ?T"
    and rt: "length (filter is_get (trace sn)) = 100 * ?T"
    and ry: "map_of (data_vars dsn) ''y0'' =
             Some (if n = 0 then ?da1
                   else ?da1\<lparr>da_data := (da_data ?da1)[0 := Num (10 * real (100 * ?T))]\<rparr>)"
    unfolding T1 by blast
  have last: "n = 0 \<Longrightarrow> Suc (nr_acquired_values s) = 100 * ?T" using Suc.prems(7) by simp
  have "map_of (data_vars dsn) ''y0'' =
          Some (da\<lparr>da_data := (da_data da)[0 := Num (10 * real (100 * ?T))]\<rparr>)"
    using ry last by (cases "n = 0") simp_all
  then show ?case using un r ra rt by simp
qed

lemma acquire_counting:
  assumes g: "gettable_pars s = g # gs" "get g = counting_block"
    and T: "0 < len_setpoints s * soft_avg s"
    and tr: "filter is_get (trace s) = []" and a: "nr_acquired_values s = 0"
    and pm: "instr_plotmon s = None"
    and y: "map_of (data_vars ds) ''y0'' = Some da" "0 < length (da_data da)"
  shows "\<exists>dsn sn. acquire e False tuid f ds s = Some (Inr dsn, sn) \<and>
           nr_acquired_values sn = 100 * (len_setpoints s * soft_avg s) \<and>
           length (filter is_get (trace sn)) = 100 * (len_setpoints s * soft_avg s) \<and>
           map_of (data_vars dsn) ''y0'' =
             Some (da\<lparr>da_data := (da_data da)
                          [0 := Num (10 * real (100 * (len_setpoints s * soft_avg s)))]\<rparr>)"
proof -
  let ?T = "len_setpoints s * soft_avg s"
  let ?s1 = "prepare s"
  have c: "same_config s ?s1" and t1: "filter is_get (trace ?s1) = filter is_get (trace s)"
    using prepare_frame[of s] by simp_all
  have T1: "len_setpoints ?s1 * soft_avg ?s1 = ?T"
    using c by (simp add: same_config_def len_setpoints_def)
  have q1: "gettable_pars ?s1 = g # gs" using c g by (simp add: same_config_def)
  have q3: "0 < len_setpoints ?s1 * soft_avg ?s1" using T1 T by simp
  have q4: "length (filter is_get (trace ?s1)) = nr_acquired_values ?s1"
    using c t1 tr a by (simp add: same_config_def)
  have a1: "nr_acquired_values ?s1 = 0" using c a by (simp add: same_config_def)
  have q7: "nr_acquired_values ?s1 + 100 * ?T = 100 * (len_setpoints ?s1 * soft_avg ?s1)"
    unfolding T1 a1 by simp
  have pm1: "instr_plotmon ?s1 = None" using c pm by (simp add: same_config_def)
  from block_loop_counting[OF q1 g(2) q3 q4 y q7, of e None f]
  obtain dsn s3 where r: "block_loop e None f ds ?s1 = Some (Inr dsn, s3)"
    and ra: "nr_acquired_values s3 = 100 * ?T"
    and rt: "length (filter is_get (trace s3)) = 100 * ?T"
    and ry: "map_of (data_vars dsn) ''y0'' =
             Some (da\<lparr>da_data := (da_data da)[0 := Num (10 * real (100 * ?T))]\<rparr>)"
    unfolding T1 using T by auto
  let ?sn = "(emit (ToNetcdf (path_join f ''dataset.hdf5'') dsn) (finish s3))
               \<lparr>plot_info := [(''2D-grid'', ABool False)]\<rparr>"
  have fr: "same_config s3 (finish s3)"
    and ft: "filter is_get (trace (finish s3)) = filter is_get (trace s3)"
    using finish_frame[of s3] by simp_all
  have res: "acquire e False tuid f ds s = Some (Inr dsn, ?sn)"
    using r pm1 by (simp add: acquire_def Let_def plotmon_active_def)
  have "nr_acquired_values ?sn = 100 * ?T"
    using fr ra by (simp add: same_config_def emit_def)
  moreover have "length (filter is_get (trace ?sn)) = 100 * ?T"
    using ft rt by (simp add: emit_def)
  ultimately show ?thesis using res ry by blast
qed

subsection \<open>Runs of the example configurations\<close>

lemma run_setup_counting:
  "\<exists>tuid f ds0 s0.
     run_setup env0 ''t'' (mc [x_par] (Some (column_grid xs)) [y_gettable False counting_block])
       = (Inr (False, tuid, f, ds0), s0) \<and>
     gettable_pars s0 = [y_gettable False counting_block] \<and>
     len_setpoints s0 * soft_avg s0 = length xs \<and>
     filter is_get (trace s0) = [] \<and> nr_acquired_values s0 = 0 \<and> instr_plotmon s0 = None \<and>
     map_of (data_vars ds0) ''y0''
       = Some \<lparr>da_data = replicate (length xs) NaN,
               da_attrs = [(''name'', ''y''), (''long_name'', ''Signal amplitude''), (''unit'', ''V'')]\<rparr>"
  by (simp add: mc_defs str_of_nat_0 env0_tuid env0_tuid_form Let_def)

lemma run_counting:
  assumes "xs \<noteq> []"
  shows "\<exists>dsn sn.
     run env0 ''t'' (mc [x_par] (Some (column_grid xs)) [y_gettable False counting_block])
       = Some (Inr dsn, sn) \<and>
     nr_acquired_values sn = 100 * length xs \<and>
     length (filter is_get (trace sn)) = 100 * length xs \<and>
     map_of (data_vars dsn) ''y0''
       = Some \<lparr>da_data = (replicate (length xs) NaN)[0 := Num (10 * real (100 * length xs))],
               da_attrs = [(''name'', ''y''), (''long_name'', ''Signal amplitude''), (''unit'', ''V'')]\<rparr>"
proof -
  let ?da = "\<lparr>da_data = replicate (length xs) NaN,
               da_attrs = [(''name'', ''y''), (''long_name'', ''Signal amplitude''), (''unit'', ''V'')]\<rparr>"
  from run_setup_counting[of xs] obtain tuid f ds0 s0 where
    su: "run_setup env0 ''t'' (mc [x_par] (Some (column_grid xs)) [y_gettable False counting_block])
           = (Inr (False, tuid, f, ds0), s0)"
    and g: "gettable_pars s0 = [y_gettable False counting_block]"
    and T: "len_setpoints s0 * soft_avg s0 = length xs"
    and tr: "filter is_get (trace s0) = []" and a: "nr_acquired_values s0 = 0"
    and pm: "instr_plotmon s0 = None"
    and y: "map_of (data_vars ds0) ''y0'' = Some ?da"
    by blast
  have g2: "get (y_gettable False counting_block) = counting_block"
    by (simp add: y_gettable_def)
  have T0: "0 < len_setpoints s0 * soft_avg s0" using T assms by simp
  have l: "0 < length (da_data ?da)" using assms by simp
  from acquire_counting[OF g g2 T0 tr a pm y l, of env0 tuid f]
  obtain dsn sn where r: "acquire env0 False tuid f ds0 s0 = Some (Inr dsn, sn)"
    and ra: "nr_acquired_values sn = 100 * length xs"
    and rt: "length (filter is_get (trace sn)) = 100 * length xs"
    and ry: "map_of (data_vars dsn) ''y0'' =
       Some (?da\<lparr>da_data := (da_data ?da)[0 := Num (10 * real (100 * length xs))]\<rparr>)"
    unfolding T by blast
  have "run env0 ''t'' (mc [x_par] (Some (column_grid xs)) [y_gettable False counting_block])
          = Some (Inr dsn, sn)"
    using su r by (simp add: run_def)
  then show ?thesis using ra rt ry by simp
qed

text \<open>
  C3.  The claim has the bulk-read loop end as soon as the acquired count reaches the
  number of set-points times the averaging factor.  The loop compares the fraction
  acquired / total with 100, so it goes on until the count is a hundred times the
  total: with one set-point, one soft average and a source that delivers one point per
  read, \<open>run\<close> reads the source 100 times and ends with a count of 100, not 1.
\<close>

theorem run_block_loop_hundredfold:
  "final_acquired (run env0 ''t''
      (mc [x_par] (Some (column_grid [0])) [y_gettable False counting_block])) = Some 100 \<and>
   length (filter is_get (final_trace (run env0 ''t''
      (mc [x_par] (Some (column_grid [0])) [y_gettable False counting_block])))) = 100"
proof -
  have ne: "[0::real] \<noteq> []" by simp
  from run_counting[OF ne] obtain dsn sn where
    "run env0 ''t'' (mc [x_par] (Some (column_grid [0])) [y_gettable False counting_block])
       = Some (Inr dsn, sn)"
    and "nr_acquired_values sn = 100 * length [0::real]"
    and "length (filter is_get (trace sn)) = 100 * length [0::real]"
    by blast
  then show ?thesis by (simp add: final_acquired_def final_trace_def)
qed


subsection \<open>Which loop runs\<close>





subsection \<open>Runs without the required configuration\<close>






subsection \<open>The hooks\<close>






subsection \<open>The count of the bulk-read loop\<close>

lemma delivered_append [simp]: "delivered (a @ b) = delivered a + delivered b"
  by (simp add: delivered_def)














end
